theory Spec2Isabelle
  imports Main "HOL-Library.Word"
begin

unbundle bit_operations_syntax

section \<open>The echo server of \<^verbatim>\<open>src/main.c\<close>\<close>

text \<open>
  The program is a single C file written against libevent. Its own code is five
  callbacks and \<^verbatim>\<open>main\<close>; everything else is the transport (libevent and the
  operating system). The callbacks are embedded from the source. The transport
  primitives they call are embedded after the contract libevent documents for them
  in its public headers (\<^verbatim>\<open>event2/buffer.h\<close>, \<^verbatim>\<open>event2/bufferevent.h\<close>,
  \<^verbatim>\<open>event2/listener.h\<close>, \<^verbatim>\<open>event2/event.h\<close>); each such definition says so.
\<close>

subsection \<open>C types\<close>

type_synonym byte = "8 word"

text \<open>
  \<^verbatim>\<open>size_t\<close> values are natural numbers below \<open>2 ^ 64\<close>; a C \<^verbatim>\<open>int\<close> is a HOL
  integer in the 32-bit two's complement range; \<^verbatim>\<open>short\<close> and
  \<^verbatim>\<open>unsigned short\<close> are 16-bit words. Conversions between them are written out.
\<close>

type_synonym size_t = nat
type_synonym c_int = int
type_synonym c_short = "16 word"
type_synonym evutil_socket_t = int

text \<open>The value an \<^verbatim>\<open>int\<close> holds after a byte count is stored in it.\<close>

definition int_of_count :: "nat \<Rightarrow> c_int" where
  "int_of_count n = sint (word_of_nat n :: 32 word)"

text \<open>
  The implicit conversion of \<^verbatim>\<open>size_t writes = evbuffer_remove_buffer(...)\<close>:
  an \<^verbatim>\<open>int\<close> stored in a \<^verbatim>\<open>size_t\<close> is reduced modulo \<open>2 ^ 64\<close>, so \<open>-1\<close> becomes
  the largest \<^verbatim>\<open>size_t\<close>.
\<close>

definition size_t_of_int :: "c_int \<Rightarrow> size_t" where
  "size_t_of_int r = nat (r mod 2 ^ 64)"

text \<open>The digits \<^verbatim>\<open>printf\<close> writes for \<^verbatim>\<open>%d\<close> and a value that is not negative.\<close>

fun decimal :: "nat \<Rightarrow> string" where
  "decimal n =
     (if n < 10 then [''0123456789'' ! n]
      else decimal (n div 10) @ [''0123456789'' ! (n mod 10)])"

declare decimal.simps [simp del]

subsection \<open>Buffers\<close>

text \<open>An \<^verbatim>\<open>evbuffer\<close> is a queue of bytes: data is added at the end and removed at the front.\<close>

type_synonym evbuffer = "byte list"

definition evbuffer_get_length :: "evbuffer \<Rightarrow> size_t" where
  "evbuffer_get_length buf = length buf"

text \<open>
  \<^verbatim>\<open>int evbuffer_remove_buffer(src, dst, datlen)\<close>, after \<^verbatim>\<open>event2/buffer.h\<close>:
  ``Read data from an evbuffer into another evbuffer, draining the bytes from the
  source buffer. If more bytes are requested than are available in src, the src
  buffer is drained completely. Returns the number of bytes read.'' The result is
  the new source, the new destination and the returned \<^verbatim>\<open>int\<close>.
\<close>

definition evbuffer_remove_buffer :: "evbuffer \<Rightarrow> evbuffer \<Rightarrow> size_t \<Rightarrow> evbuffer \<times> evbuffer \<times> c_int" where
  "evbuffer_remove_buffer src dst datlen =
     (let n = min datlen (length src)
      in (drop n src, dst @ take n src, int_of_count n))"

subsection \<open>Connections\<close>

text \<open>The callbacks of this program that a \<^verbatim>\<open>bufferevent\<close> can point to.\<close>

datatype data_cb = Conn_readcb | Conn_writecb
datatype event_cb = Conn_eventcb

text \<open>
  A \<^verbatim>\<open>struct bufferevent\<close> as far as the program sees it: the socket, the options
  it was created with, the two buffers, the three callback pointers (\<open>None\<close> is
  \<^verbatim>\<open>NULL\<close>) and the enabled events. The field \<open>wire\<close> is not part of the struct: it
  records the bytes the transport has already written from \<open>bev_output\<close> to the socket,
  that is, what the client has been sent.
\<close>

record bufferevent =
  bev_fd :: evutil_socket_t
  bev_options :: "32 word"
  bev_input :: evbuffer
  bev_output :: evbuffer
  readcb :: "data_cb option"
  writecb :: "data_cb option"
  eventcb :: "event_cb option"
  enabled :: c_short
  wire :: evbuffer

text \<open>
  The \<^verbatim>\<open>while (1)\<close> loop of \<^verbatim>\<open>conn_readcb\<close> (lines 88 to 94). The C loop has no bound
  of its own, so the embedding is a partial function: \<open>None\<close> stands for a loop that
  never reaches its \<^verbatim>\<open>break\<close>.
\<close>

partial_function (option) conn_readcb_loop :: "bufferevent \<Rightarrow> bufferevent option" where
  "conn_readcb_loop bev =
     (let inputs = evbuffer_get_length (bev_input bev);
          (src, dst, r) = evbuffer_remove_buffer (bev_input bev) (bev_output bev) inputs;
          writes = size_t_of_int r;
          bev' = bev\<lparr>bev_input := src, bev_output := dst\<rparr>
      in if inputs \<le> writes then Some bev' else conn_readcb_loop bev')"

declare conn_readcb_loop.simps [code]

subsection \<open>Constants of the libevent and system headers\<close>

text \<open>
  The source defines \<^verbatim>\<open>PORT\<close> itself (line 12). The other constants are macros of
  headers the program includes; their values are those of \<^verbatim>\<open>event2/bufferevent.h\<close>,
  \<^verbatim>\<open>event2/event.h\<close>, \<^verbatim>\<open>event2/listener.h\<close>, \<^verbatim>\<open>signal.h\<close> and
  \<^verbatim>\<open>sys/socket.h\<close>.
\<close>

definition PORT :: "16 word" where "PORT = 9995"

definition BEV_EVENT_READING :: c_short where "BEV_EVENT_READING = 0x01"
definition BEV_EVENT_WRITING :: c_short where "BEV_EVENT_WRITING = 0x02"
definition BEV_EVENT_EOF :: c_short where "BEV_EVENT_EOF = 0x10"
definition BEV_EVENT_ERROR :: c_short where "BEV_EVENT_ERROR = 0x20"
definition BEV_EVENT_TIMEOUT :: c_short where "BEV_EVENT_TIMEOUT = 0x40"
definition BEV_EVENT_CONNECTED :: c_short where "BEV_EVENT_CONNECTED = 0x80"

definition EV_READ :: c_short where "EV_READ = 0x02"
definition EV_WRITE :: c_short where "EV_WRITE = 0x04"
definition EV_SIGNAL :: c_short where "EV_SIGNAL = 0x08"

definition BEV_OPT_CLOSE_ON_FREE :: "32 word" where "BEV_OPT_CLOSE_ON_FREE = 0x01"
definition LEV_OPT_CLOSE_ON_FREE :: "32 word" where "LEV_OPT_CLOSE_ON_FREE = 0x02"
definition LEV_OPT_REUSEABLE :: "32 word" where "LEV_OPT_REUSEABLE = 0x08"

definition SIGINT :: c_int where "SIGINT = 2"
definition AF_INET :: "16 word" where "AF_INET = 2"
definition INADDR_ANY :: "32 word" where "INADDR_ANY = 0"

subsection \<open>Addresses, listener, signal event, time\<close>

text \<open>
  \<^verbatim>\<open>struct sockaddr_in\<close>. The port field holds the port in network byte order: it is
  kept as its two bytes in memory order, most significant first, which is what
  \<^verbatim>\<open>htons\<close> produces on every host.
\<close>

record sockaddr_in =
  sin_family :: "16 word"
  sin_port :: "byte list"
  sin_addr :: "32 word"

definition htons :: "16 word \<Rightarrow> byte list" where
  "htons p = [ucast (drop_bit 8 p), ucast p]"

fun ntohs :: "byte list \<Rightarrow> 16 word" where
  "ntohs [hi, lo] = push_bit 8 (ucast hi) OR ucast lo"
| "ntohs _ = 0"

text \<open>The initialiser \<^verbatim>\<open>{0}\<close> of line 29.\<close>

definition sockaddr_in_zero :: sockaddr_in where
  "sockaddr_in_zero = \<lparr>sin_family = 0, sin_port = [0, 0], sin_addr = 0\<rparr>"

datatype accept_cb = Listener_cb
datatype signal_handler = Signal_cb

text \<open>What \<^verbatim>\<open>evconnlistener_new_bind\<close> was called with.\<close>

record evconnlistener =
  lev_cb :: accept_cb
  lev_flags :: "32 word"
  lev_backlog :: c_int
  lev_addr :: sockaddr_in

text \<open>A signal event made by \<^verbatim>\<open>evsignal_new\<close>.\<close>

record event =
  ev_signum :: c_int
  ev_handler :: signal_handler

record timeval =
  tv_sec :: nat
  tv_usec :: nat

definition usec_of_timeval :: "timeval \<Rightarrow> nat" where
  "usec_of_timeval tv = tv_sec tv * 1000000 + tv_usec tv"

subsection \<open>The state of the process\<close>

text \<open>
  The \<^verbatim>\<open>event_base\<close> with everything registered on it, and the two output streams.
  A \<^verbatim>\<open>struct bufferevent *\<close> is represented by the socket it wraps, so \<open>conns\<close> is
  the store of live bufferevents. \<open>sockets\<close> are the accepted sockets that are open.
  \<open>exit_timers\<close> holds the deadlines (microseconds on the loop's clock \<open>now\<close>) of the
  pending \<^verbatim>\<open>event_base_loopexit\<close> requests, \<open>loop_break\<close> the flag set by
  \<^verbatim>\<open>event_base_loopbreak\<close>.
\<close>

record world =
  conns :: "evutil_socket_t \<rightharpoonup> bufferevent"
  sockets :: "evutil_socket_t set"
  listener :: "evconnlistener option"
  signal_event :: "event option"
  exit_timers :: "nat list"
  loop_break :: bool
  now :: nat
  stdout :: "string list"
  stderr :: "string list"

definition printf :: "string \<Rightarrow> world \<Rightarrow> world" where
  "printf msg w = w\<lparr>stdout := stdout w @ [msg]\<rparr>"

definition fprintf_stderr :: "string \<Rightarrow> world \<Rightarrow> world" where
  "fprintf_stderr msg w = w\<lparr>stderr := stderr w @ [msg]\<rparr>"

subsection \<open>Transport primitives\<close>

text \<open>
  Each primitive follows the contract of the libevent header; the program only relies
  on that contract. Whether an allocation succeeds is decided by the environment and
  is a parameter.

  \<^verbatim>\<open>bufferevent_socket_new(base, fd, options)\<close>: a new bufferevent over an existing
  socket, or \<^verbatim>\<open>NULL\<close>. A new bufferevent has empty buffers, no callbacks, and writing
  enabled.
\<close>

definition bufferevent_socket_new :: "world \<Rightarrow> evutil_socket_t \<Rightarrow> 32 word \<Rightarrow> bool \<Rightarrow> (world \<times> evutil_socket_t) option" where
  "bufferevent_socket_new w fd options ok =
     (if ok
      then Some (w\<lparr>conns := (conns w)(fd \<mapsto>
                   \<lparr>bev_fd = fd, bev_options = options, bev_input = [], bev_output = [],
                    readcb = None, writecb = None, eventcb = None, enabled = EV_WRITE,
                    wire = []\<rparr>)\<rparr>, fd)
      else None)"

definition bufferevent_setcb :: "world \<Rightarrow> evutil_socket_t \<Rightarrow> data_cb option \<Rightarrow> data_cb option \<Rightarrow> event_cb option \<Rightarrow> world" where
  "bufferevent_setcb w bev rcb wcb ecb =
     (case conns w bev of
        None \<Rightarrow> w
      | Some b \<Rightarrow> w\<lparr>conns := (conns w)(bev \<mapsto> b\<lparr>readcb := rcb, writecb := wcb, eventcb := ecb\<rparr>)\<rparr>)"

definition bufferevent_enable :: "world \<Rightarrow> evutil_socket_t \<Rightarrow> c_short \<Rightarrow> world" where
  "bufferevent_enable w bev ev =
     (case conns w bev of
        None \<Rightarrow> w
      | Some b \<Rightarrow> w\<lparr>conns := (conns w)(bev \<mapsto> b\<lparr>enabled := enabled b OR ev\<rparr>)\<rparr>)"

text \<open>
  \<^verbatim>\<open>bufferevent_free(bev)\<close>: the bufferevent and both its buffers are deallocated, no
  callback of it runs afterwards, and with \<^verbatim>\<open>BEV_OPT_CLOSE_ON_FREE\<close> the socket is
  closed.
\<close>

definition bufferevent_free :: "world \<Rightarrow> evutil_socket_t \<Rightarrow> world option" where
  "bufferevent_free w bev =
     (case conns w bev of
        None \<Rightarrow> None
      | Some b \<Rightarrow>
          Some (w\<lparr>conns := (conns w)(bev := None),
                  sockets := (if bev_options b AND BEV_OPT_CLOSE_ON_FREE \<noteq> 0
                              then sockets w - {bev_fd b} else sockets w)\<rparr>))"

text \<open>
  \<^verbatim>\<open>event_base_loopbreak(base)\<close>: ``Abort the active event_base_loop() immediately'',
  that is, after the running callback returns.
\<close>

definition event_base_loopbreak :: "world \<Rightarrow> world" where
  "event_base_loopbreak w = w\<lparr>loop_break := True\<rparr>"

text \<open>
  \<^verbatim>\<open>event_base_loopexit(base, tv)\<close>: ``Exit the event loop after the specified
  time''. Every call is a request of its own, a one-shot timer that ends the loop when
  it expires; a later call does not withdraw an earlier one.
\<close>

definition event_base_loopexit :: "world \<Rightarrow> timeval \<Rightarrow> world" where
  "event_base_loopexit w tv = w\<lparr>exit_timers := exit_timers w @ [now w + usec_of_timeval tv]\<rparr>"

text \<open>
  \<^verbatim>\<open>evconnlistener_new_bind(base, cb, ptr, flags, backlog, sa, socklen)\<close>: allocates a
  listener bound to the address \<^verbatim>\<open>sa\<close>, or returns \<^verbatim>\<open>NULL\<close>.
\<close>

definition evconnlistener_new_bind :: "world \<Rightarrow> accept_cb \<Rightarrow> 32 word \<Rightarrow> c_int \<Rightarrow> sockaddr_in \<Rightarrow> bool \<Rightarrow> world option" where
  "evconnlistener_new_bind w cb flags backlog sa ok =
     (if ok
      then Some (w\<lparr>listener := Some \<lparr>lev_cb = cb, lev_flags = flags, lev_backlog = backlog, lev_addr = sa\<rparr>\<rparr>)
      else None)"

text \<open>
  What \<^verbatim>\<open>evconnlistener_new_bind\<close> does with its backlog argument, after
  \<^verbatim>\<open>event2/listener.h\<close>: ``Passed to the listen() call to determine the length of
  the acceptable connection backlog. Set to -1 for a reasonable default. Set to 0 if the
  socket is already listening.'' The result is the queue length given to
  \<^verbatim>\<open>listen\<close>, or \<open>None\<close> when \<^verbatim>\<open>listen\<close> is not called; the default libevent
  uses for a negative argument is 128.
\<close>

definition listen_backlog :: "c_int \<Rightarrow> nat option" where
  "listen_backlog backlog =
     (if 0 < backlog then Some (nat backlog)
      else if backlog < 0 then Some 128
      else None)"

definition evsignal_new :: "c_int \<Rightarrow> signal_handler \<Rightarrow> bool \<Rightarrow> event option" where
  "evsignal_new signum cb ok = (if ok then Some \<lparr>ev_signum = signum, ev_handler = cb\<rparr> else None)"

text \<open>\<^verbatim>\<open>event_add(ev, NULL)\<close> returns 0 on success and -1 on failure; \<open>rc\<close> is what it returns.\<close>

definition event_add :: "world \<Rightarrow> event \<Rightarrow> c_int \<Rightarrow> c_int \<times> world" where
  "event_add w ev rc = (rc, if rc < 0 then w else w\<lparr>signal_event := Some ev\<rparr>)"

definition evconnlistener_free :: "world \<Rightarrow> world" where
  "evconnlistener_free w = w\<lparr>listener := None\<rparr>"

definition event_free :: "world \<Rightarrow> world" where
  "event_free w = w\<lparr>signal_event := None\<rparr>"

text \<open>
  \<^verbatim>\<open>event_base_free(base)\<close> deallocates the base with the timers it still owns; it
  ``will not close any fds or free any memory passed to event_new as the argument to
  callback'', so bufferevents that are still live stay as they are.
\<close>

definition event_base_free :: "world \<Rightarrow> world" where
  "event_base_free w = w\<lparr>exit_timers := []\<rparr>"

subsection \<open>The callbacks of the program\<close>

text \<open>
  A callback that is handed a bufferevent that is not live has no defined behaviour in
  C; such a call is \<open>None\<close>, as is a call that does not return.

  \<^verbatim>\<open>listener_cb\<close> (lines 61 to 73). \<open>ok\<close> says whether \<^verbatim>\<open>bufferevent_socket_new\<close>
  succeeds.
\<close>

definition listener_cb :: "world \<Rightarrow> evutil_socket_t \<Rightarrow> bool \<Rightarrow> world" where
  "listener_cb base fd ok =
     (case bufferevent_socket_new base fd BEV_OPT_CLOSE_ON_FREE ok of
        None \<Rightarrow> event_base_loopbreak (fprintf_stderr ''Error constructing bufferevent!'' base)
      | Some (w, bev) \<Rightarrow>
          bufferevent_enable
            (bufferevent_setcb w bev (Some Conn_readcb) (Some Conn_writecb) (Some Conn_eventcb))
            bev (EV_WRITE OR EV_READ))"

text \<open>\<^verbatim>\<open>conn_writecb\<close> (lines 75 to 81).\<close>

definition conn_writecb :: "world \<Rightarrow> evutil_socket_t \<Rightarrow> world option" where
  "conn_writecb w bev =
     (case conns w bev of
        None \<Rightarrow> None
      | Some b \<Rightarrow>
          Some (if evbuffer_get_length (bev_output b) = 0 then printf ''Answered\<newline>'' w else w))"

text \<open>\<^verbatim>\<open>conn_readcb\<close> (lines 83 to 96).\<close>

definition conn_readcb :: "world \<Rightarrow> evutil_socket_t \<Rightarrow> world option" where
  "conn_readcb w bev =
     (case conns w bev of
        None \<Rightarrow> None
      | Some b \<Rightarrow>
          (case conn_readcb_loop b of
             None \<Rightarrow> None
           | Some b' \<Rightarrow> Some (printf ''Received\<newline>'' (w\<lparr>conns := (conns w)(bev \<mapsto> b')\<rparr>))))"

text \<open>
  \<^verbatim>\<open>conn_eventcb\<close> (lines 98 to 129). \<open>errstr\<close> is the text of
  \<^verbatim>\<open>strerror(errno)\<close> at the time of the call.
\<close>

definition conn_eventcb :: "world \<Rightarrow> evutil_socket_t \<Rightarrow> c_short \<Rightarrow> string \<Rightarrow> world option" where
  "conn_eventcb w bev events errstr =
     (let w1 = (if events AND BEV_EVENT_READING \<noteq> 0
                then printf (''Error encountered while reading: '' @ errstr @ ''\<newline>'') w else w);
          w2 = (if events AND BEV_EVENT_WRITING \<noteq> 0
                then printf (''Error encountered while writing: '' @ errstr @ ''\<newline>'') w1 else w1);
          w3 = (if events AND BEV_EVENT_EOF \<noteq> 0
                then printf ''Eof reached.\<newline>'' w2 else w2);
          w4 = (if events AND BEV_EVENT_ERROR \<noteq> 0
                then printf (''Unrecoverable error encountered: '' @ errstr @ ''\<newline>'') w3 else w3);
          w5 = (if events AND BEV_EVENT_TIMEOUT \<noteq> 0
                then printf ''User-specified timeout reached.\<newline>'' w4 else w4);
          w6 = (if events AND BEV_EVENT_CONNECTED \<noteq> 0
                then printf ''Connect operation finished.\<newline>'' w5 else w5)
      in bufferevent_free w6 bev)"

text \<open>\<^verbatim>\<open>signal_cb\<close> (lines 131 to 139).\<close>

definition signal_cb :: "world \<Rightarrow> c_int \<Rightarrow> c_short \<Rightarrow> world" where
  "signal_cb base sig events =
     (let delay = \<lparr>tv_sec = 2, tv_usec = 0\<rparr>
      in event_base_loopexit
           (printf ''Caught an interrupt signal; exiting cleanly in two seconds.\<newline>'' base)
           delay)"

subsection \<open>The event loop\<close>

text \<open>
  What the transport reports to the loop, one occurrence at a time:
  a client connected and was accepted as socket \<open>fd\<close> (with whether a bufferevent can
  be allocated for it); bytes arrived on a connection; the socket of a connection took
  up to \<open>n\<close> bytes of pending output; the transport reports a status bitmask on a
  connection (with the text of \<^verbatim>\<open>strerror(errno)\<close>); the interrupt signal was
  delivered.
\<close>

datatype occurrence =
    Accept evutil_socket_t bool
  | Readable evutil_socket_t evbuffer
  | Writable evutil_socket_t nat
  | Status evutil_socket_t c_short string
  | Interrupt

fun run_data_cb :: "data_cb \<Rightarrow> world \<Rightarrow> evutil_socket_t \<Rightarrow> world option" where
  "run_data_cb Conn_readcb w bev = conn_readcb w bev"
| "run_data_cb Conn_writecb w bev = conn_writecb w bev"

text \<open>
  How the transport turns an occurrence into callback invocations. The listener hands an
  accepted socket to its accept callback. A bufferevent with reading enabled appends
  arrived bytes to its input buffer and then runs the read callback. A bufferevent with
  writing enabled moves bytes from the front of its output buffer to the socket and
  runs the write callback once the output buffer is empty (the low-water mark is 0).
  A status report runs the event callback. A registered signal event runs its handler.
  Occurrences for a connection that is no longer live are not delivered.
\<close>

fun dispatch :: "world \<Rightarrow> occurrence \<Rightarrow> world option" where
  "dispatch w (Accept fd ok) =
     (case listener w of
        None \<Rightarrow> Some w
      | Some l \<Rightarrow>
          (case lev_cb l of
             Listener_cb \<Rightarrow> Some (listener_cb (w\<lparr>sockets := insert fd (sockets w)\<rparr>) fd ok)))"
| "dispatch w (Readable fd bytes) =
     (case conns w fd of
        None \<Rightarrow> Some w
      | Some b \<Rightarrow>
          if enabled b AND EV_READ = 0 then Some w
          else
            (let w' = w\<lparr>conns := (conns w)(fd \<mapsto> b\<lparr>bev_input := bev_input b @ bytes\<rparr>)\<rparr>
             in case readcb b of None \<Rightarrow> Some w' | Some cb \<Rightarrow> run_data_cb cb w' fd))"
| "dispatch w (Writable fd n) =
     (case conns w fd of
        None \<Rightarrow> Some w
      | Some b \<Rightarrow>
          if enabled b AND EV_WRITE = 0 then Some w
          else
            (let k = min n (length (bev_output b));
                 b' = b\<lparr>bev_output := drop k (bev_output b), wire := wire b @ take k (bev_output b)\<rparr>;
                 w' = w\<lparr>conns := (conns w)(fd \<mapsto> b')\<rparr>
             in if bev_output b' = []
                then (case writecb b of None \<Rightarrow> Some w' | Some cb \<Rightarrow> run_data_cb cb w' fd)
                else Some w'))"
| "dispatch w (Status fd events errstr) =
     (case conns w fd of
        None \<Rightarrow> Some w
      | Some b \<Rightarrow>
          (case eventcb b of
             None \<Rightarrow> Some w
           | Some Conn_eventcb \<Rightarrow> conn_eventcb w fd events errstr))"
| "dispatch w Interrupt =
     (case signal_event w of
        None \<Rightarrow> Some w
      | Some ev \<Rightarrow>
          (case ev_handler ev of Signal_cb \<Rightarrow> Some (signal_cb w (ev_signum ev) EV_SIGNAL)))"

text \<open>
  \<^verbatim>\<open>event_base_dispatch(base)\<close>: ``This loop will run the event base until either
  there are no more pending or active events, or until something calls
  event_base_loopbreak() or event_base_loopexit().'' The environment is a finite list of
  occurrences, each with the time (in microseconds) at which it happens. Before each
  occurrence the loop returns if it was told to break or if an exit request has expired;
  otherwise it sets its clock and dispatches. After the last occurrence nothing more
  happens but the passing of time: a pending exit request then expires and the loop
  returns, and without one the loop waits forever (\<open>None\<close>). While the program runs,
  its listener and its signal event are always pending.
\<close>

fun event_base_dispatch :: "world \<Rightarrow> (nat \<times> occurrence) list \<Rightarrow> world option" where
  "event_base_dispatch base [] =
     (if loop_break base \<or> exit_timers base \<noteq> [] then Some base else None)"
| "event_base_dispatch base ((t, occ) # rest) =
     (if loop_break base \<or> list_ex (\<lambda>d. d \<le> t) (exit_timers base) then Some base
      else (case dispatch (base\<lparr>now := t\<rparr>) occ of
              None \<Rightarrow> None
            | Some base' \<Rightarrow> event_base_dispatch base' rest))"

subsection \<open>\<^verbatim>\<open>main\<close>\<close>

text \<open>What the environment decides at startup: which of the constructions succeed.\<close>

record startup =
  base_ok :: bool
  listener_ok :: bool
  signal_ok :: bool
  event_add_rc :: c_int

text \<open>The process when \<^verbatim>\<open>main\<close> is entered, and after a successful \<^verbatim>\<open>event_base_new\<close>.\<close>

definition event_base_new :: world where
  "event_base_new =
     \<lparr>conns = Map.empty, sockets = {}, listener = None, signal_event = None,
      exit_timers = [], loop_break = False, now = 0, stdout = [], stderr = []\<rparr>"

text \<open>
  Lines 23 to 50 of \<^verbatim>\<open>main\<close>: either an early \<^verbatim>\<open>return\<close> with its exit status
  (\<open>Inl\<close>), or the process at the call of \<^verbatim>\<open>event_base_dispatch\<close> (\<open>Inr\<close>).
\<close>

definition main_startup :: "startup \<Rightarrow> (c_int \<times> world) + world" where
  "main_startup env =
     (if \<not> base_ok env
      then Inl (1, fprintf_stderr ''Could not initialize libevent!\<newline>'' event_base_new)
      else
        (let base = event_base_new;
             sin = sockaddr_in_zero\<lparr>sin_family := AF_INET, sin_port := htons PORT\<rparr>
         in case evconnlistener_new_bind base Listener_cb
                   (LEV_OPT_REUSEABLE OR LEV_OPT_CLOSE_ON_FREE) (- 1) sin (listener_ok env) of
              None \<Rightarrow> Inl (1, fprintf_stderr ''Could not create a listener!\<newline>'' base)
            | Some w1 \<Rightarrow>
                (case evsignal_new SIGINT Signal_cb (signal_ok env) of
                   None \<Rightarrow> Inl (1, fprintf_stderr ''Could not create/add a signal event!\<newline>'' w1)
                 | Some signal_ev \<Rightarrow>
                     (let (rc, w2) = event_add w1 signal_ev (event_add_rc env)
                      in if rc < 0
                         then Inl (1, fprintf_stderr ''Could not create/add a signal event!\<newline>'' w2)
                         else Inr (printf (''Start listening the port: '' @ decimal (unat PORT) @ ''\<newline>'')
                                   w2)))))"

text \<open>
  All of \<^verbatim>\<open>main\<close>: the exit status and the final state of the process, or \<open>None\<close> when
  the event loop never returns.
\<close>

definition main :: "startup \<Rightarrow> (nat \<times> occurrence) list \<Rightarrow> (c_int \<times> world) option" where
  "main env tr =
     (case main_startup env of
        Inl r \<Rightarrow> Some r
      | Inr w \<Rightarrow>
          (case event_base_dispatch w tr of
             None \<Rightarrow> None
           | Some w' \<Rightarrow>
               Some (0, printf ''done\<newline>''
                          (event_base_free (event_free (evconnlistener_free w'))))))"

subsection \<open>Serving a list of occurrences\<close>

text \<open>
  The occurrences of a list dispatched one after the other, each at its time, as the
  event loop does for as long as nothing tells it to stop. This function is not in the
  source; it is used to say what the loop has done when it returns.
\<close>

fun serve :: "world \<Rightarrow> (nat \<times> occurrence) list \<Rightarrow> world option" where
  "serve w [] = Some w"
| "serve w ((t, occ) # rest) =
     (case dispatch (w\<lparr>now := t\<rparr>) occ of
        None \<Rightarrow> None
      | Some w' \<Rightarrow> serve w' rest)"

text \<open>
  Observations on occurrences, used in the statements below: an accept for which no
  bufferevent can be allocated; the socket an occurrence is about; the bytes an
  occurrence delivers on a given socket; whether an occurrence ends the connection on a
  given socket or puts a new one in its place.
\<close>

fun accept_failure :: "occurrence \<Rightarrow> bool" where
  "accept_failure (Accept fd ok) = (\<not> ok)"
| "accept_failure _ = False"

fun occurrence_fd :: "occurrence \<Rightarrow> evutil_socket_t option" where
  "occurrence_fd (Accept fd ok) = Some fd"
| "occurrence_fd (Readable fd bytes) = Some fd"
| "occurrence_fd (Writable fd n) = Some fd"
| "occurrence_fd (Status fd events errstr) = Some fd"
| "occurrence_fd Interrupt = None"

fun received_on :: "evutil_socket_t \<Rightarrow> occurrence \<Rightarrow> evbuffer" where
  "received_on fd (Readable fd' bytes) = (if fd' = fd then bytes else [])"
| "received_on fd _ = []"

fun ends_connection :: "evutil_socket_t \<Rightarrow> occurrence \<Rightarrow> bool" where
  "ends_connection fd (Accept fd' ok) = (fd' = fd)"
| "ends_connection fd (Status fd' events errstr) = (fd' = fd)"
| "ends_connection fd _ = False"

subsection \<open>Sample states\<close>

text \<open>A startup at which every construction succeeds.\<close>

definition startup_ok :: startup where
  "startup_ok = \<lparr>base_ok = True, listener_ok = True, signal_ok = True, event_add_rc = 0\<rparr>"

text \<open>
  The process at the call of \<^verbatim>\<open>event_base_dispatch\<close> after such a startup: the
  listener and the signal event are registered and the start message is printed.
\<close>

definition listening :: world where
  "listening =
     event_base_new
       \<lparr>listener := Some \<lparr>lev_cb = Listener_cb,
                           lev_flags = LEV_OPT_REUSEABLE OR LEV_OPT_CLOSE_ON_FREE,
                           lev_backlog = - 1,
                           lev_addr = \<lparr>sin_family = AF_INET, sin_port = htons PORT, sin_addr = 0\<rparr>\<rparr>,
        signal_event := Some \<lparr>ev_signum = SIGINT, ev_handler = Signal_cb\<rparr>,
        stdout := [''Start listening the port: 9995\<newline>'']\<rparr>"

text \<open>The same process after \<^verbatim>\<open>signal_cb\<close> has run once, at time 0.\<close>

definition interrupted_once :: world where
  "interrupted_once = signal_cb listening SIGINT EV_SIGNAL"

text \<open>
  Two connections as \<^verbatim>\<open>listener_cb\<close> sets them up: one on socket 5 whose input
  buffer holds the bytes of \<^verbatim>\<open>hello\<close>, one on socket 6 with nothing to read and one
  byte of output pending.
\<close>

definition hello_conn :: bufferevent where
  "hello_conn =
     \<lparr>bev_fd = 5, bev_options = BEV_OPT_CLOSE_ON_FREE, bev_input = [104, 101, 108, 108, 111],
      bev_output = [], readcb = Some Conn_readcb, writecb = Some Conn_writecb,
      eventcb = Some Conn_eventcb, enabled = EV_WRITE OR EV_READ, wire = []\<rparr>"

definition idle_conn :: bufferevent where
  "idle_conn = hello_conn\<lparr>bev_fd := 6, bev_input := [], bev_output := [119]\<rparr>"

definition two_clients :: world where
  "two_clients = event_base_new\<lparr>conns := [5 \<mapsto> hello_conn, 6 \<mapsto> idle_conn], sockets := {5, 6}\<rparr>"

section \<open>Facts about the callbacks and the loop\<close>

subsection \<open>The read callback\<close>

lemma int_of_count_0: "int_of_count 0 = 0"
  by (simp add: int_of_count_def)

lemma size_t_of_int_0: "size_t_of_int 0 = 0"
  by (simp add: size_t_of_int_def)

text \<open>On an empty input buffer the first pass requests 0 bytes, gets 0 and breaks.\<close>

lemma conn_readcb_loop_empty: "bev_input bev = [] \<Longrightarrow> conn_readcb_loop bev = Some bev"
  by (subst conn_readcb_loop.simps)
     (simp add: evbuffer_get_length_def evbuffer_remove_buffer_def int_of_count_0 size_t_of_int_0)

text \<open>
  In general the first pass requests the whole input and the primitive moves it. If the
  returned count, read back as a \<^verbatim>\<open>size_t\<close>, is not below the request the loop
  breaks; otherwise a second pass runs on the empty input buffer and breaks.
\<close>

lemma conn_readcb_loop_result:
  "conn_readcb_loop bev = Some (bev\<lparr>bev_input := [], bev_output := bev_output bev @ bev_input bev\<rparr>)"
  by (subst conn_readcb_loop.simps)
     (simp add: evbuffer_get_length_def evbuffer_remove_buffer_def conn_readcb_loop_empty Let_def)

lemma conn_readcb_result:
  "conns w bev = Some b \<Longrightarrow>
   conn_readcb w bev =
     Some (printf ''Received\<newline>''
            (w\<lparr>conns := (conns w)(bev \<mapsto> b\<lparr>bev_input := [], bev_output := bev_output b @ bev_input b\<rparr>)\<rparr>))"
  by (simp add: conn_readcb_def conn_readcb_loop_result)

lemma conn_readcb_idle_step:
  assumes "conns w bev = Some b" "bev_input b = []"
  shows "conn_readcb w bev = Some (printf ''Received\<newline>'' w)"
proof -
  have "b\<lparr>bev_input := [], bev_output := bev_output b @ bev_input b\<rparr> = b"
    using assms(2) by simp
  moreover have "(conns w)(bev \<mapsto> b) = conns w"
    using assms(1) by (simp add: fun_upd_idem)
  ultimately show ?thesis
    using assms(1) by (simp add: conn_readcb_result)
qed

subsection \<open>The event callback\<close>

lemma printf_when:
  "conns (if c then printf m w else w) = conns w"
  "sockets (if c then printf m w else w) = sockets w"
  "listener (if c then printf m w else w) = listener w"
  "signal_event (if c then printf m w else w) = signal_event w"
  "exit_timers (if c then printf m w else w) = exit_timers w"
  "loop_break (if c then printf m w else w) = loop_break w"
  "now (if c then printf m w else w) = now w"
  "stderr (if c then printf m w else w) = stderr w"
  "length (stdout (if c then printf m w else w)) = length (stdout w) + (if c then 1 else 0)"
  by (simp_all add: printf_def)

lemma printf_when_done:
  "m \<noteq> ''done\<newline>'' \<Longrightarrow>
   count_list (stdout (if c then printf m w else w)) ''done\<newline>'' = count_list (stdout w) ''done\<newline>''"
  by (simp add: printf_def)

lemma bufferevent_free_live:
  "conns w bev = Some b \<Longrightarrow>
   bufferevent_free w bev =
     Some (w\<lparr>conns := (conns w)(bev := None),
             sockets := (if bev_options b AND BEV_OPT_CLOSE_ON_FREE \<noteq> 0
                         then sockets w - {bev_fd b} else sockets w)\<rparr>)"
  by (simp add: bufferevent_free_def)

text \<open>
  The six tests of \<^verbatim>\<open>conn_eventcb\<close> only print; whatever they print, the call of
  \<^verbatim>\<open>bufferevent_free\<close> follows.
\<close>

lemma conn_eventcb_result:
  assumes "conns w bev = Some b"
  shows "\<exists>w'. conn_eventcb w bev events errstr = Some w' \<and>
           conns w' = (conns w)(bev := None) \<and>
           sockets w' = (if bev_options b AND BEV_OPT_CLOSE_ON_FREE \<noteq> 0
                         then sockets w - {bev_fd b} else sockets w) \<and>
           listener w' = listener w \<and> signal_event w' = signal_event w \<and>
           exit_timers w' = exit_timers w \<and> loop_break w' = loop_break w \<and>
           now w' = now w \<and> stderr w' = stderr w \<and>
           length (stdout w') =
             length (stdout w)
             + (if events AND BEV_EVENT_READING \<noteq> 0 then 1 else 0)
             + (if events AND BEV_EVENT_WRITING \<noteq> 0 then 1 else 0)
             + (if events AND BEV_EVENT_EOF \<noteq> 0 then 1 else 0)
             + (if events AND BEV_EVENT_ERROR \<noteq> 0 then 1 else 0)
             + (if events AND BEV_EVENT_TIMEOUT \<noteq> 0 then 1 else 0)
             + (if events AND BEV_EVENT_CONNECTED \<noteq> 0 then 1 else 0) \<and>
           count_list (stdout w') ''done\<newline>'' = count_list (stdout w) ''done\<newline>''"
proof -
  define w1 where "w1 = (if events AND BEV_EVENT_READING \<noteq> 0
                then printf (''Error encountered while reading: '' @ errstr @ ''\<newline>'') w else w)"
  define w2 where "w2 = (if events AND BEV_EVENT_WRITING \<noteq> 0
                then printf (''Error encountered while writing: '' @ errstr @ ''\<newline>'') w1 else w1)"
  define w3 where "w3 = (if events AND BEV_EVENT_EOF \<noteq> 0
                then printf ''Eof reached.\<newline>'' w2 else w2)"
  define w4 where "w4 = (if events AND BEV_EVENT_ERROR \<noteq> 0
                then printf (''Unrecoverable error encountered: '' @ errstr @ ''\<newline>'') w3 else w3)"
  define w5 where "w5 = (if events AND BEV_EVENT_TIMEOUT \<noteq> 0
                then printf ''User-specified timeout reached.\<newline>'' w4 else w4)"
  define w6 where "w6 = (if events AND BEV_EVENT_CONNECTED \<noteq> 0
                then printf ''Connect operation finished.\<newline>'' w5 else w5)"
  note defs = w1_def w2_def w3_def w4_def w5_def w6_def
  have call: "conn_eventcb w bev events errstr = bufferevent_free w6 bev"
    unfolding conn_eventcb_def Let_def defs ..
  have c: "conns w6 = conns w" and s: "sockets w6 = sockets w"
    and l: "listener w6 = listener w" and g: "signal_event w6 = signal_event w"
    and x: "exit_timers w6 = exit_timers w" and k: "loop_break w6 = loop_break w"
    and n: "now w6 = now w" and e: "stderr w6 = stderr w"
    unfolding defs by (simp_all only: printf_when)
  have o: "length (stdout w6) =
             length (stdout w)
             + (if events AND BEV_EVENT_READING \<noteq> 0 then 1 else 0)
             + (if events AND BEV_EVENT_WRITING \<noteq> 0 then 1 else 0)
             + (if events AND BEV_EVENT_EOF \<noteq> 0 then 1 else 0)
             + (if events AND BEV_EVENT_ERROR \<noteq> 0 then 1 else 0)
             + (if events AND BEV_EVENT_TIMEOUT \<noteq> 0 then 1 else 0)
             + (if events AND BEV_EVENT_CONNECTED \<noteq> 0 then 1 else 0)"
    unfolding defs by (simp only: printf_when)
  have "count_list (stdout w1) ''done\<newline>'' = count_list (stdout w) ''done\<newline>''"
    unfolding w1_def by (rule printf_when_done) simp
  moreover have "count_list (stdout w2) ''done\<newline>'' = count_list (stdout w1) ''done\<newline>''"
    unfolding w2_def by (rule printf_when_done) simp
  moreover have "count_list (stdout w3) ''done\<newline>'' = count_list (stdout w2) ''done\<newline>''"
    unfolding w3_def by (rule printf_when_done) simp
  moreover have "count_list (stdout w4) ''done\<newline>'' = count_list (stdout w3) ''done\<newline>''"
    unfolding w4_def by (rule printf_when_done) simp
  moreover have "count_list (stdout w5) ''done\<newline>'' = count_list (stdout w4) ''done\<newline>''"
    unfolding w5_def by (rule printf_when_done) simp
  moreover have "count_list (stdout w6) ''done\<newline>'' = count_list (stdout w5) ''done\<newline>''"
    unfolding w6_def by (rule printf_when_done) simp
  ultimately have d: "count_list (stdout w6) ''done\<newline>'' = count_list (stdout w) ''done\<newline>''"
    by simp
  have live: "conns w6 bev = Some b"
    using assms c by simp
  show ?thesis
    unfolding call bufferevent_free_live [OF live]
    using c s l g x k n e o d by simp
qed

subsection \<open>The accept callback and the startup\<close>

lemma listener_cb_failure:
  "listener_cb w fd False =
     w\<lparr>loop_break := True, stderr := stderr w @ [''Error constructing bufferevent!'']\<rparr>"
  by (simp add: listener_cb_def bufferevent_socket_new_def event_base_loopbreak_def fprintf_stderr_def)

lemma listener_cb_success:
  "listener_cb w fd True =
     w\<lparr>conns := (conns w)(fd \<mapsto>
          \<lparr>bev_fd = fd, bev_options = BEV_OPT_CLOSE_ON_FREE, bev_input = [], bev_output = [],
           readcb = Some Conn_readcb, writecb = Some Conn_writecb, eventcb = Some Conn_eventcb,
           enabled = EV_WRITE OR EV_READ, wire = []\<rparr>)\<rparr>"
  by (simp add: listener_cb_def bufferevent_socket_new_def bufferevent_setcb_def
      bufferevent_enable_def EV_WRITE_def EV_READ_def)

lemma ntohs_htons_PORT: "ntohs (htons PORT) = 9995"
  by (simp add: htons_def PORT_def)

lemma decimal_PORT: "decimal (unat PORT) = ''9995''"
  by (simp add: PORT_def decimal.simps)

lemma main_startup_ok:
  assumes "base_ok env" "listener_ok env" "signal_ok env" "0 \<le> event_add_rc env"
  shows "main_startup env = Inr listening"
  using assms
  by (simp add: main_startup_def listening_def evconnlistener_new_bind_def evsignal_new_def
      event_add_def printf_def sockaddr_in_zero_def event_base_new_def decimal_PORT)

lemma main_startup_failed:
  assumes "\<not> base_ok env \<or> \<not> listener_ok env \<or> \<not> signal_ok env \<or> event_add_rc env < 0"
  shows "\<exists>w. main_startup env = Inl (1, w) \<and> conns w = Map.empty \<and> sockets w = {} \<and>
             stdout w = [] \<and> length (stderr w) = 1"
  using assms
  by (auto simp add: main_startup_def evconnlistener_new_bind_def evsignal_new_def
      event_add_def fprintf_stderr_def event_base_new_def Let_def)

lemma listening_control:
  "listener listening \<noteq> None" "signal_event listening \<noteq> None" "\<not> loop_break listening"
  "exit_timers listening = []" "count_list (stdout listening) ''done\<newline>'' = 0"
  by (simp_all add: listening_def event_base_new_def)

subsection \<open>One dispatched occurrence\<close>

lemma accept_failure_iff: "accept_failure occ \<longleftrightarrow> (\<exists>fd. occ = Accept fd False)"
  by (cases occ) auto

lemma run_data_cb_effect:
  assumes "conns w fd = Some b"
  shows "\<exists>w'. run_data_cb cb w fd = Some w' \<and> listener w' = listener w \<and>
           signal_event w' = signal_event w \<and> exit_timers w' = exit_timers w \<and>
           loop_break w' = loop_break w \<and>
           count_list (stdout w') ''done\<newline>'' = count_list (stdout w) ''done\<newline>''"
proof (cases cb)
  case Conn_readcb
  then show ?thesis
    by (simp add: conn_readcb_result [OF assms] printf_def)
next
  case Conn_writecb
  then show ?thesis
    using assms by (simp add: conn_writecb_def printf_def)
qed

lemma run_data_cb_frame:
  assumes "conns w x = Some bx" and "y \<noteq> x"
  shows "\<exists>w'. run_data_cb cb w x = Some w' \<and> conns w' y = conns w y"
proof (cases cb)
  case Conn_readcb
  then show ?thesis
    using assms(2) by (simp add: conn_readcb_result [OF assms(1)] printf_def)
next
  case Conn_writecb
  then show ?thesis
    using assms(1) by (simp add: conn_writecb_def printf_def)
qed

lemma run_data_cb_idle:
  assumes "conns w x = Some bx" and "bev_input bx = []"
  shows "\<exists>w'. run_data_cb cb w x = Some w' \<and> conns w' = conns w"
proof (cases cb)
  case Conn_readcb
  then show ?thesis
    by (simp add: conn_readcb_idle_step [OF assms] printf_def)
next
  case Conn_writecb
  then show ?thesis
    using assms(1) by (simp add: conn_writecb_def printf_def)
qed

text \<open>
  The transport's part of a \<open>Writable\<close> occurrence, with the bytes that leave and the
  bufferevent that remains named.
\<close>

lemma dispatch_Writable:
  assumes "conns w fd = Some b"
  shows "dispatch w (Writable fd n) =
           (if enabled b AND EV_WRITE = 0 then Some w
            else if drop (min n (length (bev_output b))) (bev_output b) = []
                 then (case writecb b of
                         None \<Rightarrow>
                           Some (w\<lparr>conns := (conns w)(fd \<mapsto>
                                  b\<lparr>bev_output := drop (min n (length (bev_output b))) (bev_output b),
                                    wire := wire b @ take (min n (length (bev_output b))) (bev_output b)\<rparr>)\<rparr>)
                       | Some cb \<Rightarrow>
                           run_data_cb cb
                             (w\<lparr>conns := (conns w)(fd \<mapsto>
                                  b\<lparr>bev_output := drop (min n (length (bev_output b))) (bev_output b),
                                    wire := wire b @ take (min n (length (bev_output b))) (bev_output b)\<rparr>)\<rparr>)
                             fd)
                 else Some (w\<lparr>conns := (conns w)(fd \<mapsto>
                                  b\<lparr>bev_output := drop (min n (length (bev_output b))) (bev_output b),
                                    wire := wire b @ take (min n (length (bev_output b))) (bev_output b)\<rparr>)\<rparr>))"
  using assms by (simp add: Let_def)

text \<open>What one dispatched occurrence does to the state that controls the loop.\<close>

lemma dispatch_effect:
  "\<exists>w'. dispatch w occ = Some w' \<and>
         listener w' = listener w \<and> signal_event w' = signal_event w \<and>
         exit_timers w' = (if occ = Interrupt \<and> signal_event w \<noteq> None
                           then exit_timers w @ [now w + 2000000] else exit_timers w) \<and>
         loop_break w' = (loop_break w \<or> (listener w \<noteq> None \<and> (\<exists>fd. occ = Accept fd False))) \<and>
         count_list (stdout w') ''done\<newline>'' = count_list (stdout w) ''done\<newline>''"
proof (cases occ)
  case (Accept fd ok)
  then show ?thesis
    by (cases ok; cases "listener w")
       (auto simp add: listener_cb_failure listener_cb_success split: accept_cb.splits)
next
  case (Readable fd bytes)
  show ?thesis
  proof (cases "conns w fd")
    case None
    with Readable show ?thesis by simp
  next
    case (Some b)
    let ?w = "w\<lparr>conns := (conns w)(fd \<mapsto> b\<lparr>bev_input := bev_input b @ bytes\<rparr>)\<rparr>"
    have live: "conns ?w fd = Some (b\<lparr>bev_input := bev_input b @ bytes\<rparr>)"
      by simp
    show ?thesis
    proof (cases "readcb b")
      case None
      with Readable Some show ?thesis by (simp add: Let_def)
    next
      case (Some cb)
      from run_data_cb_effect [OF live, of cb] Readable \<open>conns w fd = Some b\<close> Some
      show ?thesis by (auto simp add: Let_def)
    qed
  qed
next
  case (Writable fd n)
  show ?thesis
  proof (cases "conns w fd")
    case None
    with Writable show ?thesis by simp
  next
    case (Some b)
    define b' where "b' = b\<lparr>bev_output := drop (min n (length (bev_output b))) (bev_output b),
                            wire := wire b @ take (min n (length (bev_output b))) (bev_output b)\<rparr>"
    let ?w = "w\<lparr>conns := (conns w)(fd \<mapsto> b')\<rparr>"
    have live: "conns ?w fd = Some b'"
      by simp
    note step = dispatch_Writable [OF Some, of n, folded b'_def]
    show ?thesis
    proof (cases "writecb b")
      case None
      with Writable step show ?thesis by simp
    next
      case (Some cb)
      from run_data_cb_effect [OF live, of cb] Writable step Some
      show ?thesis by auto
    qed
  qed
next
  case (Status fd events errstr)
  show ?thesis
  proof (cases "conns w fd")
    case None
    with Status show ?thesis by simp
  next
    case (Some b)
    from conn_eventcb_result [OF Some, of events errstr]
    show ?thesis
      using Status Some by (cases "eventcb b") (auto split: event_cb.splits)
  qed
next
  case Interrupt
  then show ?thesis
    by (cases "signal_event w")
       (auto simp add: signal_cb_def event_base_loopexit_def printf_def usec_of_timeval_def
             split: signal_handler.splits)
qed

lemma dispatch_at:
  "\<exists>w1. dispatch (w\<lparr>now := t\<rparr>) occ = Some w1 \<and>
         listener w1 = listener w \<and> signal_event w1 = signal_event w \<and>
         exit_timers w1 = (if occ = Interrupt \<and> signal_event w \<noteq> None
                           then exit_timers w @ [t + 2000000] else exit_timers w) \<and>
         loop_break w1 = (loop_break w \<or> (listener w \<noteq> None \<and> accept_failure occ)) \<and>
         count_list (stdout w1) ''done\<newline>'' = count_list (stdout w) ''done\<newline>''"
proof -
  have sel: "listener (w\<lparr>now := t\<rparr>) = listener w" "signal_event (w\<lparr>now := t\<rparr>) = signal_event w"
    "exit_timers (w\<lparr>now := t\<rparr>) = exit_timers w" "loop_break (w\<lparr>now := t\<rparr>) = loop_break w"
    "stdout (w\<lparr>now := t\<rparr>) = stdout w" "now (w\<lparr>now := t\<rparr>) = t"
    by simp_all
  show ?thesis
    using dispatch_effect [of "w\<lparr>now := t\<rparr>" occ] unfolding sel accept_failure_iff .
qed

text \<open>An occurrence for another socket, or the signal, leaves a connection as it is.\<close>

lemma dispatch_frame:
  assumes "occurrence_fd occ \<noteq> Some fd"
  shows "\<exists>w'. dispatch w occ = Some w' \<and> conns w' fd = conns w fd"
proof (cases occ)
  case (Accept x ok)
  then show ?thesis
    using assms
    by (cases ok; cases "listener w")
       (auto simp add: listener_cb_failure listener_cb_success split: accept_cb.splits)
next
  case (Readable x bytes)
  then have ne: "fd \<noteq> x"
    using assms by auto
  show ?thesis
  proof (cases "conns w x")
    case None
    with Readable show ?thesis by simp
  next
    case (Some bx)
    let ?w = "w\<lparr>conns := (conns w)(x \<mapsto> bx\<lparr>bev_input := bev_input bx @ bytes\<rparr>)\<rparr>"
    have live: "conns ?w x = Some (bx\<lparr>bev_input := bev_input bx @ bytes\<rparr>)"
      by simp
    have same: "conns ?w fd = conns w fd"
      using ne by simp
    show ?thesis
    proof (cases "readcb bx")
      case None
      with Readable Some same show ?thesis by (simp add: Let_def)
    next
      case (Some cb)
      from run_data_cb_frame [OF live ne, of cb] Readable \<open>conns w x = Some bx\<close> Some same
      show ?thesis by (auto simp add: Let_def)
    qed
  qed
next
  case (Writable x n)
  then have ne: "fd \<noteq> x"
    using assms by auto
  show ?thesis
  proof (cases "conns w x")
    case None
    with Writable show ?thesis by simp
  next
    case (Some bx)
    define b' where "b' = bx\<lparr>bev_output := drop (min n (length (bev_output bx))) (bev_output bx),
                             wire := wire bx @ take (min n (length (bev_output bx))) (bev_output bx)\<rparr>"
    let ?w = "w\<lparr>conns := (conns w)(x \<mapsto> b')\<rparr>"
    have live: "conns ?w x = Some b'"
      by simp
    have same: "conns ?w fd = conns w fd"
      using ne by simp
    note step = dispatch_Writable [OF Some, of n, folded b'_def]
    show ?thesis
    proof (cases "writecb bx")
      case None
      with Writable step same show ?thesis by simp
    next
      case (Some cb)
      from run_data_cb_frame [OF live ne, of cb] Writable step Some same
      show ?thesis by auto
    qed
  qed
next
  case (Status x events errstr)
  then have ne: "fd \<noteq> x"
    using assms by auto
  show ?thesis
  proof (cases "conns w x")
    case None
    with Status show ?thesis by simp
  next
    case (Some bx)
    from conn_eventcb_result [OF Some, of events errstr]
    show ?thesis
      using Status Some ne by (cases "eventcb bx") (auto split: event_cb.splits)
  qed
next
  case Interrupt
  then show ?thesis
    by (cases "signal_event w")
       (auto simp add: signal_cb_def event_base_loopexit_def printf_def split: signal_handler.splits)
qed

text \<open>One occurrence, seen from a live connection that reads with \<^verbatim>\<open>conn_readcb\<close>.\<close>

lemma dispatch_stream:
  assumes live: "conns w fd = Some b" and empty: "bev_input b = []"
      and cb: "readcb b = Some Conn_readcb" and rd: "enabled b AND EV_READ \<noteq> 0"
      and stays: "\<not> ends_connection fd occ"
  shows "\<exists>w' b'. dispatch w occ = Some w' \<and> conns w' fd = Some b' \<and> bev_input b' = [] \<and>
           readcb b' = Some Conn_readcb \<and> enabled b' = enabled b \<and>
           wire b' @ bev_output b' = wire b @ bev_output b @ received_on fd occ"
proof (cases "occurrence_fd occ = Some fd")
  case False
  from dispatch_frame [OF False, of w] have "\<exists>w'. dispatch w occ = Some w' \<and> conns w' fd = Some b"
    using live by simp
  moreover have "received_on fd occ = []"
    using False by (cases occ) auto
  ultimately show ?thesis
    using empty cb rd by auto
next
  case True
  then consider (readable) bytes where "occ = Readable fd bytes"
    | (writable) n where "occ = Writable fd n"
    using stays by (cases occ) auto
  then show ?thesis
  proof cases
    case readable
    let ?b = "b\<lparr>bev_input := bev_input b @ bytes\<rparr>"
    let ?w = "w\<lparr>conns := (conns w)(fd \<mapsto> ?b)\<rparr>"
    have l: "conns ?w fd = Some ?b"
      by simp
    have d: "dispatch w occ = conn_readcb ?w fd"
      using readable live cb rd by (simp add: Let_def)
    show ?thesis
      unfolding d conn_readcb_result [OF l] using readable empty cb rd by (simp add: printf_def)
  next
    case writable
    define b' where "b' = b\<lparr>bev_output := drop (min n (length (bev_output b))) (bev_output b),
                            wire := wire b @ take (min n (length (bev_output b))) (bev_output b)\<rparr>"
    let ?w = "w\<lparr>conns := (conns w)(fd \<mapsto> b')\<rparr>"
    have l: "conns ?w fd = Some b'"
      by simp
    have e: "bev_input b' = []"
      using empty by (simp add: b'_def)
    have keep: "wire b' @ bev_output b' = wire b @ bev_output b"
      by (simp add: b'_def)
    note step = dispatch_Writable [OF live, of n, folded b'_def]
    have props: "readcb b' = Some Conn_readcb" "enabled b' = enabled b"
      using cb by (simp_all add: b'_def)
    show ?thesis
    proof (cases "writecb b")
      case None
      with writable step live empty cb rd e keep props show ?thesis by auto
    next
      case (Some wcb)
      from run_data_cb_idle [OF l e, of wcb] obtain w' where
        "run_data_cb wcb ?w fd = Some w'" and "conns w' = conns ?w"
        by blast
      with writable step live empty cb rd e keep props Some show ?thesis by auto
    qed
  qed
qed

subsection \<open>Lists of occurrences\<close>

text \<open>
  Serving never fails, keeps the listener and the signal event, adds one exit request
  per interrupt, sets the break flag exactly when an accept cannot be given a
  bufferevent, and never prints the completion message.
\<close>

lemma serve_effect:
  "\<exists>w'. serve w tr = Some w' \<and>
         listener w' = listener w \<and> signal_event w' = signal_event w \<and>
         exit_timers w' =
           exit_timers w @
           (if signal_event w = None then []
            else map (\<lambda>p. fst p + 2000000) (filter (\<lambda>p. snd p = Interrupt) tr)) \<and>
         loop_break w' =
           (loop_break w \<or> (listener w \<noteq> None \<and> list_ex (\<lambda>p. accept_failure (snd p)) tr)) \<and>
         count_list (stdout w') ''done\<newline>'' = count_list (stdout w) ''done\<newline>''"
proof (induction tr arbitrary: w)
  case Nil
  show ?case by simp
next
  case (Cons p tr)
  obtain t occ where p: "p = (t, occ)"
    by (cases p)
  from dispatch_at [where w = w and t = t and occ = occ]
  obtain w1 where w1: "dispatch (w\<lparr>now := t\<rparr>) occ = Some w1"
    and l: "listener w1 = listener w" and g: "signal_event w1 = signal_event w"
    and x: "exit_timers w1 = (if occ = Interrupt \<and> signal_event w \<noteq> None
                              then exit_timers w @ [t + 2000000] else exit_timers w)"
    and k: "loop_break w1 = (loop_break w \<or> (listener w \<noteq> None \<and> accept_failure occ))"
    and d: "count_list (stdout w1) ''done\<newline>'' = count_list (stdout w) ''done\<newline>''"
    by blast
  from Cons.IH [of w1] obtain w' where w': "serve w1 tr = Some w'"
    and l': "listener w' = listener w1" and g': "signal_event w' = signal_event w1"
    and x': "exit_timers w' =
           exit_timers w1 @
           (if signal_event w1 = None then []
            else map (\<lambda>p. fst p + 2000000) (filter (\<lambda>p. snd p = Interrupt) tr))"
    and k': "loop_break w' =
           (loop_break w1 \<or> (listener w1 \<noteq> None \<and> list_ex (\<lambda>p. accept_failure (snd p)) tr))"
    and d': "count_list (stdout w') ''done\<newline>'' = count_list (stdout w1) ''done\<newline>''"
    by blast
  have "serve w (p # tr) = Some w'"
    using p w1 w' by simp
  moreover have "exit_timers w' =
           exit_timers w @
           (if signal_event w = None then []
            else map (\<lambda>p. fst p + 2000000) (filter (\<lambda>p. snd p = Interrupt) (p # tr)))"
    using x x' g p by simp
  moreover have "loop_break w' =
           (loop_break w \<or> (listener w \<noteq> None \<and> list_ex (\<lambda>p. accept_failure (snd p)) (p # tr)))"
    using k k' l p by auto
  ultimately show ?case
    using l l' g g' d d' by simp
qed

text \<open>
  A connection that stays open echoes its stream: what has been written to its socket,
  followed by what is queued in its output buffer, grows by exactly the bytes that
  arrive on it, in their order, whatever happens on other sockets in between.
\<close>

lemma serve_stream:
  assumes "conns w fd = Some b" and "bev_input b = []"
      and "readcb b = Some Conn_readcb" and "enabled b AND EV_READ \<noteq> 0"
      and "\<forall>p\<in>set tr. \<not> ends_connection fd (snd p)"
  shows "\<exists>w' b'. serve w tr = Some w' \<and> conns w' fd = Some b' \<and> bev_input b' = [] \<and>
           enabled b' = enabled b \<and>
           wire b' @ bev_output b' =
             wire b @ bev_output b @ concat (map (\<lambda>p. received_on fd (snd p)) tr)"
  using assms
proof (induction tr arbitrary: w b)
  case Nil
  then show ?case by simp
next
  case (Cons p tr)
  obtain t occ where p: "p = (t, occ)"
    by (cases p)
  have live: "conns (w\<lparr>now := t\<rparr>) fd = Some b"
    using Cons.prems(1) by simp
  have stays: "\<not> ends_connection fd occ"
    using Cons.prems(5) p by simp
  from dispatch_stream [OF live Cons.prems(2,3,4) stays]
  obtain w1 b1 where w1: "dispatch (w\<lparr>now := t\<rparr>) occ = Some w1"
    and l1: "conns w1 fd = Some b1" and e1: "bev_input b1 = []"
    and c1: "readcb b1 = Some Conn_readcb" and n1: "enabled b1 = enabled b"
    and s1: "wire b1 @ bev_output b1 = wire b @ bev_output b @ received_on fd occ"
    by blast
  have r1: "enabled b1 AND EV_READ \<noteq> 0"
    using n1 Cons.prems(4) by simp
  have rest: "\<forall>p\<in>set tr. \<not> ends_connection fd (snd p)"
    using Cons.prems(5) by simp
  from Cons.IH [OF l1 e1 c1 r1 rest]
  obtain w' b' where w': "serve w1 tr = Some w'" and l': "conns w' fd = Some b'"
    and e': "bev_input b' = []" and n': "enabled b' = enabled b1"
    and s': "wire b' @ bev_output b' =
             wire b1 @ bev_output b1 @ concat (map (\<lambda>p. received_on fd (snd p)) tr)"
    by blast
  have "wire b' @ bev_output b' =
          (wire b1 @ bev_output b1) @ concat (map (\<lambda>p. received_on fd (snd p)) tr)"
    using s' by simp
  also have "\<dots> = (wire b @ bev_output b @ received_on fd occ)
                   @ concat (map (\<lambda>p. received_on fd (snd p)) tr)"
    by (simp only: s1)
  also have "\<dots> = wire b @ bev_output b @ concat (map (\<lambda>p. received_on fd (snd p)) (p # tr))"
    using p by simp
  finally have all: "wire b' @ bev_output b' =
      wire b @ bev_output b @ concat (map (\<lambda>p. received_on fd (snd p)) (p # tr))" .
  have "serve w (p # tr) = Some w'"
    using p w1 w' by simp
  moreover have "enabled b' = enabled b"
    using n' n1 by simp
  ultimately show ?case
    using l' e' all by blast
qed

text \<open>
  When the socket of a connection takes at least as many bytes as are queued, all of the
  queue goes out, in order.
\<close>

lemma dispatch_flush:
  assumes live: "conns w fd = Some b" and empty: "bev_input b = []"
      and wr: "enabled b AND EV_WRITE \<noteq> 0" and all: "length (bev_output b) \<le> n"
  shows "\<exists>w' b'. dispatch w (Writable fd n) = Some w' \<and> conns w' fd = Some b' \<and>
           bev_input b' = [] \<and> bev_output b' = [] \<and> wire b' = wire b @ bev_output b"
proof -
  define b' where "b' = b\<lparr>bev_output := drop (min n (length (bev_output b))) (bev_output b),
                          wire := wire b @ take (min n (length (bev_output b))) (bev_output b)\<rparr>"
  let ?w = "w\<lparr>conns := (conns w)(fd \<mapsto> b')\<rparr>"
  have l: "conns ?w fd = Some b'"
    by simp
  have e: "bev_input b' = []"
    using empty by (simp add: b'_def)
  have out: "bev_output b' = []" and sent: "wire b' = wire b @ bev_output b"
    using all by (simp_all add: b'_def)
  note step = dispatch_Writable [OF live, of n, folded b'_def]
  show ?thesis
  proof (cases "writecb b")
    case None
    with step wr out l e sent show ?thesis by auto
  next
    case (Some wcb)
    from run_data_cb_idle [OF l e, of wcb] obtain w' where
      "run_data_cb wcb ?w fd = Some w'" and "conns w' = conns ?w"
      by blast
    with step wr out l e sent Some show ?thesis by auto
  qed
qed

text \<open>
  While the break flag is clear, every pending exit request lies at or after \<open>D\<close>, and
  the occurrences come before \<open>D\<close>, fail no accept and interrupt no earlier than two
  seconds before \<open>D\<close>, the loop serves them all and goes on with the rest.
\<close>

lemma dispatch_loop_serves:
  assumes "\<not> loop_break w"
      and "\<forall>d\<in>set (exit_timers w). D \<le> d"
      and "\<forall>p\<in>set tr1. fst p < D \<and> \<not> accept_failure (snd p) \<and>
                       (snd p = Interrupt \<longrightarrow> D \<le> fst p + 2000000)"
  shows "\<exists>w'. serve w tr1 = Some w' \<and>
              event_base_dispatch w (tr1 @ tr2) = event_base_dispatch w' tr2"
  using assms
proof (induction tr1 arbitrary: w)
  case Nil
  show ?case by simp
next
  case (Cons p tr1)
  obtain t occ where p: "p = (t, occ)"
    by (cases p)
  have t: "t < D" and ok: "\<not> accept_failure occ" and sig: "occ = Interrupt \<longrightarrow> D \<le> t + 2000000"
    using Cons.prems(3) p by auto
  have no_exit: "\<not> list_ex (\<lambda>d. d \<le> t) (exit_timers w)"
    using Cons.prems(2) t by (auto simp add: list_ex_iff)
  from dispatch_at [where w = w and t = t and occ = occ]
  obtain w1 where w1: "dispatch (w\<lparr>now := t\<rparr>) occ = Some w1"
    and x: "exit_timers w1 = (if occ = Interrupt \<and> signal_event w \<noteq> None
                              then exit_timers w @ [t + 2000000] else exit_timers w)"
    and k: "loop_break w1 = (loop_break w \<or> (listener w \<noteq> None \<and> accept_failure occ))"
    by blast
  have k1: "\<not> loop_break w1"
    using k Cons.prems(1) ok by simp
  have x1: "\<forall>d\<in>set (exit_timers w1). D \<le> d"
    using x Cons.prems(2) sig by auto
  have rest: "\<forall>p\<in>set tr1. fst p < D \<and> \<not> accept_failure (snd p) \<and>
                       (snd p = Interrupt \<longrightarrow> D \<le> fst p + 2000000)"
    using Cons.prems(3) by simp
  from Cons.IH [OF k1 x1 rest] obtain w' where "serve w1 tr1 = Some w'"
    and "event_base_dispatch w1 (tr1 @ tr2) = event_base_dispatch w' tr2"
    by blast
  then show ?case
    using p w1 no_exit Cons.prems(1) by simp
qed

lemma dispatch_loop_serves_idle:
  assumes "\<not> loop_break w" and "exit_timers w = []"
      and "\<forall>p\<in>set tr1. snd p \<noteq> Interrupt \<and> \<not> accept_failure (snd p)"
  shows "\<exists>w'. serve w tr1 = Some w' \<and>
              event_base_dispatch w (tr1 @ tr2) = event_base_dispatch w' tr2"
proof -
  define D where "D = Suc (Max (insert 0 (fst ` set tr1)))"
  have "\<forall>p\<in>set tr1. fst p < D"
    by (auto simp add: D_def less_Suc_eq_le intro!: Max_ge)
  then have each: "\<forall>p\<in>set tr1. fst p < D \<and> \<not> accept_failure (snd p) \<and>
                       (snd p = Interrupt \<longrightarrow> D \<le> fst p + 2000000)"
    using assms(3) by auto
  have timers: "\<forall>d\<in>set (exit_timers w). D \<le> d"
    using assms(2) by simp
  show ?thesis
    by (rule dispatch_loop_serves [OF assms(1) timers each])
qed

text \<open>Once the time of an exit request is reached the loop returns at once.\<close>

lemma dispatch_returns_at_deadline:
  assumes "d \<in> set (exit_timers w)" and "\<forall>p\<in>set late. d \<le> fst p"
  shows "event_base_dispatch w late = Some w"
proof (cases late)
  case Nil
  with assms(1) show ?thesis by auto
next
  case (Cons p rest)
  obtain t occ where p: "p = (t, occ)"
    by (cases p)
  have "d \<le> t"
    using assms(2) Cons p by simp
  then have "list_ex (\<lambda>d. d \<le> t) (exit_timers w)"
    using assms(1) by (auto simp add: list_ex_iff)
  then show ?thesis
    using Cons p by simp
qed

lemma serve_append:
  "serve w (xs @ ys) = (case serve w xs of None \<Rightarrow> None | Some w' \<Rightarrow> serve w' ys)"
proof (induction xs arbitrary: w)
  case Nil
  show ?case by simp
next
  case (Cons p xs)
  obtain t occ where p: "p = (t, occ)"
    by (cases p)
  show ?case
    using Cons.IH p by (cases "dispatch (w\<lparr>now := t\<rparr>) occ") simp_all
qed

text \<open>
  With the loop running, no exit request pending and the signal event registered, the
  loop serves everything up to two seconds after the first interrupt and returns there,
  whatever further interrupts arrive in between.
\<close>

lemma loop_exits_at_first_deadline:
  assumes "\<not> loop_break w" and "exit_timers w = []" and "signal_event w \<noteq> None"
      and "\<forall>p\<in>set pre. fst p \<le> t \<and> snd p \<noteq> Interrupt \<and> \<not> accept_failure (snd p)"
      and "\<forall>p\<in>set early. t \<le> fst p \<and> fst p < t + 2000000 \<and> \<not> accept_failure (snd p)"
      and "\<forall>p\<in>set late. t + 2000000 \<le> fst p"
  shows "\<exists>w'. serve w (pre @ (t, Interrupt) # early) = Some w' \<and>
           exit_timers w' =
             (t + 2000000) # map (\<lambda>p. fst p + 2000000) (filter (\<lambda>p. snd p = Interrupt) early) \<and>
           event_base_dispatch w (pre @ (t, Interrupt) # early @ late) = Some w'"
proof -
  let ?served = "pre @ (t, Interrupt) # early"
  have timers0: "\<forall>d\<in>set (exit_timers w). t + 2000000 \<le> d"
    using assms(2) by simp
  have each: "\<forall>p\<in>set ?served. fst p < t + 2000000 \<and> \<not> accept_failure (snd p) \<and>
                (snd p = Interrupt \<longrightarrow> t + 2000000 \<le> fst p + 2000000)"
    using assms(4,5) by auto
  from dispatch_loop_serves [OF assms(1) timers0 each, of late]
  obtain w' where served: "serve w ?served = Some w'"
    and loop: "event_base_dispatch w (?served @ late) = event_base_dispatch w' late"
    by blast
  have no_int: "filter (\<lambda>p. snd p = Interrupt) pre = []"
    using assms(4) by (simp add: filter_empty_conv)
  from serve_effect [of w ?served] served
  have timers: "exit_timers w' =
             (t + 2000000) # map (\<lambda>p. fst p + 2000000) (filter (\<lambda>p. snd p = Interrupt) early)"
    using assms(2,3) no_int by auto
  have "event_base_dispatch w' late = Some w'"
    by (rule dispatch_returns_at_deadline [of "t + 2000000"]) (simp_all add: timers assms(6))
  then have "event_base_dispatch w (pre @ (t, Interrupt) # early @ late) = Some w'"
    using loop by simp
  with served timers show ?thesis by blast
qed

section \<open>The claims\<close>

subsection \<open>Echo\<close>

text \<open>
  Claim C1, as the source has it. Whatever bytes the input buffer of a live connection
  holds when \<^verbatim>\<open>conn_readcb\<close> runs, the callback returns, and afterwards the store
  of connections differs from the one before only at this connection: its input buffer
  is empty and its output buffer is the old output followed by exactly the old input,
  byte for byte and in the same order. As a consequence, for a connection that reads
  with \<^verbatim>\<open>conn_readcb\<close> and stays open while a list of occurrences is served, the
  bytes already written to its socket followed by the bytes queued for it are what they
  were before followed by exactly the bytes that arrived on it, in their order of
  arrival; occurrences on other sockets do not show in it. And once the socket then
  takes all that is queued, the bytes written to it, that is, what the client has
  received, are exactly that sequence.
\<close>

theorem conn_readcb_echo:
  assumes "conns w bev = Some b"
  shows "(\<exists>w'. conn_readcb w bev = Some w' \<and>
              conns w' = (conns w)(bev \<mapsto> b\<lparr>bev_input := [], bev_output := bev_output b @ bev_input b\<rparr>)) \<and>
         (bev_input b = [] \<and> readcb b = Some Conn_readcb \<and> enabled b AND EV_READ \<noteq> 0 \<and>
          (\<forall>p\<in>set tr. \<not> ends_connection bev (snd p)) \<longrightarrow>
            (\<exists>w' b'. serve w tr = Some w' \<and> conns w' bev = Some b' \<and> bev_input b' = [] \<and>
                wire b' @ bev_output b' =
                  wire b @ bev_output b @ concat (map (\<lambda>p. received_on bev (snd p)) tr) \<and>
                (enabled b AND EV_WRITE \<noteq> 0 \<and> length (bev_output b') \<le> n \<longrightarrow>
                   (\<exists>w'' b''. serve w (tr @ [(t, Writable bev n)]) = Some w'' \<and>
                       conns w'' bev = Some b'' \<and> bev_input b'' = [] \<and> bev_output b'' = [] \<and>
                       wire b'' =
                         wire b @ bev_output b @ concat (map (\<lambda>p. received_on bev (snd p)) tr)))))"
proof (intro conjI impI)
  show "\<exists>w'. conn_readcb w bev = Some w' \<and>
              conns w' = (conns w)(bev \<mapsto> b\<lparr>bev_input := [], bev_output := bev_output b @ bev_input b\<rparr>)"
    using assms by (simp add: conn_readcb_result printf_def)
next
  assume h: "bev_input b = [] \<and> readcb b = Some Conn_readcb \<and> enabled b AND EV_READ \<noteq> 0 \<and>
          (\<forall>p\<in>set tr. \<not> ends_connection bev (snd p))"
  let ?total = "wire b @ bev_output b @ concat (map (\<lambda>p. received_on bev (snd p)) tr)"
  from serve_stream [OF assms, of tr] h
  obtain w' b' where w': "serve w tr = Some w'" and l': "conns w' bev = Some b'"
    and e': "bev_input b' = []" and n': "enabled b' = enabled b"
    and s': "wire b' @ bev_output b' = ?total"
    by blast
  have flush: "\<exists>w'' b''. serve w (tr @ [(t, Writable bev n)]) = Some w'' \<and>
                       conns w'' bev = Some b'' \<and> bev_input b'' = [] \<and> bev_output b'' = [] \<and>
                       wire b'' = ?total"
    if wr: "enabled b AND EV_WRITE \<noteq> 0 \<and> length (bev_output b') \<le> n"
  proof -
    have live: "conns (w'\<lparr>now := t\<rparr>) bev = Some b'"
      using l' by simp
    have wr': "enabled b' AND EV_WRITE \<noteq> 0"
      using wr n' by simp
    from dispatch_flush [OF live e' wr', of n] wr
    obtain w'' b'' where "dispatch (w'\<lparr>now := t\<rparr>) (Writable bev n) = Some w''"
      and "conns w'' bev = Some b''" and "bev_input b'' = []" and "bev_output b'' = []"
      and "wire b'' = wire b' @ bev_output b'"
      by blast
    then show ?thesis
      using w' s' by (simp add: serve_append)
  qed
  show "\<exists>w' b'. serve w tr = Some w' \<and> conns w' bev = Some b' \<and> bev_input b' = [] \<and>
                wire b' @ bev_output b' = ?total \<and>
                (enabled b AND EV_WRITE \<noteq> 0 \<and> length (bev_output b') \<le> n \<longrightarrow>
                   (\<exists>w'' b''. serve w (tr @ [(t, Writable bev n)]) = Some w'' \<and>
                       conns w'' bev = Some b'' \<and> bev_input b'' = [] \<and> bev_output b'' = [] \<and>
                       wire b'' = ?total))"
    using w' l' e' s' flush by blast
qed

theorem conn_readcb_echo_witness:
  "(\<exists>w'. conn_readcb two_clients 5 = Some w' \<and>
         conns w' 5 = Some (hello_conn\<lparr>bev_input := [], bev_output := [104, 101, 108, 108, 111]\<rparr>) \<and>
         conns w' 6 = Some idle_conn) \<and>
   (\<exists>w' b'. serve two_clients
              [(1, Readable 6 [104, 105]), (2, Readable 5 [1]), (3, Writable 6 2), (4, Readable 6 [33])]
              = Some w' \<and>
            conns w' 6 = Some b' \<and> bev_input b' = [] \<and> wire b' @ bev_output b' = [119, 104, 105, 33]) \<and>
   (\<exists>w'' b''. serve two_clients
              [(1, Readable 6 [104, 105]), (2, Readable 5 [1]), (3, Writable 6 2), (4, Readable 6 [33]),
               (5, Writable 6 10)]
              = Some w'' \<and>
            conns w'' 6 = Some b'' \<and> bev_output b'' = [] \<and> wire b'' = [119, 104, 105, 33])"
proof -
  let ?tr = "[(1::nat, Readable 6 [104, 105]), (2, Readable 5 [1]), (3, Writable 6 2), (4, Readable 6 [33])]"
  have live5: "conns two_clients 5 = Some hello_conn"
    by (simp add: two_clients_def)
  have live6: "conns two_clients 6 = Some idle_conn"
    by (simp add: two_clients_def)
  have bufs: "bev_output hello_conn @ bev_input hello_conn = [104, 101, 108, 108, 111]"
    by (simp add: hello_conn_def)
  have first: "\<exists>w'. conn_readcb two_clients 5 = Some w' \<and>
         conns w' 5 = Some (hello_conn\<lparr>bev_input := [], bev_output := [104, 101, 108, 108, 111]\<rparr>) \<and>
         conns w' 6 = Some idle_conn"
    using conn_readcb_echo [OF live5, of "[]" 0 0] live5 live6 bufs by auto
  have props: "bev_input idle_conn = [] \<and> readcb idle_conn = Some Conn_readcb \<and>
               enabled idle_conn AND EV_READ \<noteq> 0 \<and> (\<forall>p\<in>set ?tr. \<not> ends_connection 6 (snd p))"
    by (simp add: idle_conn_def hello_conn_def EV_READ_def EV_WRITE_def)
  have wr: "enabled idle_conn AND EV_WRITE \<noteq> 0"
    by (simp add: idle_conn_def hello_conn_def EV_READ_def EV_WRITE_def)
  have sent: "wire idle_conn @ bev_output idle_conn @ concat (map (\<lambda>p. received_on 6 (snd p)) ?tr)
                = [119, 104, 105, 33]"
    by (simp add: idle_conn_def hello_conn_def)
  from conn_readcb_echo [OF live6, of ?tr 10 5] props
  obtain w' b' where w': "serve two_clients ?tr = Some w'" and l': "conns w' 6 = Some b'"
    and e': "bev_input b' = []" and s': "wire b' @ bev_output b' = [119, 104, 105, 33]"
    and f: "enabled idle_conn AND EV_WRITE \<noteq> 0 \<and> length (bev_output b') \<le> 10 \<longrightarrow>
              (\<exists>w'' b''. serve two_clients (?tr @ [(5, Writable 6 10)]) = Some w'' \<and>
                  conns w'' 6 = Some b'' \<and> bev_input b'' = [] \<and> bev_output b'' = [] \<and>
                  wire b'' = [119, 104, 105, 33])"
    unfolding sent by blast
  have "length (wire b' @ bev_output b') = 4"
    by (simp only: s') simp
  then have "length (bev_output b') \<le> 10"
    by simp
  with f wr have third: "\<exists>w'' b''. serve two_clients (?tr @ [(5, Writable 6 10)]) = Some w'' \<and>
                  conns w'' 6 = Some b'' \<and> bev_output b'' = [] \<and> wire b'' = [119, 104, 105, 33]"
    by blast
  have "?tr @ [(5, Writable 6 10)] =
        [(1, Readable 6 [104, 105]), (2, Readable 5 [1]), (3, Writable 6 2), (4, Readable 6 [33]),
         (5, Writable 6 10)]"
    by simp
  with third have third': "\<exists>w'' b''. serve two_clients
              [(1, Readable 6 [104, 105]), (2, Readable 5 [1]), (3, Writable 6 2), (4, Readable 6 [33]),
               (5, Writable 6 10)] = Some w'' \<and>
            conns w'' 6 = Some b'' \<and> bev_output b'' = [] \<and> wire b'' = [119, 104, 105, 33]"
    by (simp only:)
  from first w' l' e' s' third' show ?thesis
    by blast
qed

text \<open>
  The claim as it was stated, that the client eventually receives what it sent, fails
  when the connection ends before the queue is written out. A client is accepted on
  socket 5 and sends the five bytes of \<^verbatim>\<open>hello\<close>: they are queued in the output
  buffer and nothing has been written to the socket yet (first equation). End-of-file is
  reported next, before the socket is ready for writing: \<^verbatim>\<open>conn_eventcb\<close> frees the
  bufferevent with the five bytes still queued, the socket is closed, and the later
  readiness of socket 5 for writing finds no connection. The process ends without a
  byte of the echo sent (second equation).
\<close>

theorem echo_lost_counterexample:
  "serve listening [(10, Accept 5 True), (20, Readable 5 [104, 101, 108, 108, 111])] =
     Some (listening
            \<lparr>conns := [5 \<mapsto> \<lparr>bev_fd = 5, bev_options = BEV_OPT_CLOSE_ON_FREE, bev_input = [],
                               bev_output = [104, 101, 108, 108, 111], readcb = Some Conn_readcb,
                               writecb = Some Conn_writecb, eventcb = Some Conn_eventcb,
                               enabled = EV_WRITE OR EV_READ, wire = []\<rparr>],
             sockets := {5},
             now := 20,
             stdout := [''Start listening the port: 9995\<newline>'', ''Received\<newline>'']\<rparr>) \<and>
   main startup_ok
     [(10, Accept 5 True), (20, Readable 5 [104, 101, 108, 108, 111]),
      (30, Status 5 (BEV_EVENT_READING OR BEV_EVENT_EOF) ''Success''), (40, Writable 5 5),
      (50, Interrupt)] =
     Some (0, event_base_new
               \<lparr>now := 50,
                stdout := [''Start listening the port: 9995\<newline>'', ''Received\<newline>'',
                           ''Error encountered while reading: Success\<newline>'', ''Eof reached.\<newline>'',
                           ''Caught an interrupt signal; exiting cleanly in two seconds.\<newline>'',
                           ''done\<newline>'']\<rparr>)"
  by (simp add: main_def main_startup_ok startup_ok_def listening_def event_base_new_def
      listener_cb_success conn_readcb_result conn_eventcb_def bufferevent_free_def Let_def
      signal_cb_def event_base_loopexit_def printf_def usec_of_timeval_def
      event_base_free_def event_free_def evconnlistener_free_def
      EV_WRITE_def EV_READ_def BEV_OPT_CLOSE_ON_FREE_def
      BEV_EVENT_READING_def BEV_EVENT_WRITING_def BEV_EVENT_EOF_def BEV_EVENT_ERROR_def
      BEV_EVENT_TIMEOUT_def BEV_EVENT_CONNECTED_def)


text \<open>
  Claim C7. When the input buffer of a live connection is empty, the move requested by
  \<^verbatim>\<open>conn_readcb\<close> moves zero bytes and leaves both buffers as they are, and \<open>n\<close>
  invocations in a row, for any \<open>n\<close>, leave the whole state unchanged except for the
  \<open>n\<close> lines \<^verbatim>\<open>Received\<close> on standard output.
\<close>

theorem conn_readcb_idle:
  assumes "conns w bev = Some b" and "bev_input b = []"
  shows "evbuffer_remove_buffer (bev_input b) (bev_output b) (evbuffer_get_length (bev_input b))
           = (bev_input b, bev_output b, 0)
       \<and> ((\<lambda>r. Option.bind r (\<lambda>w'. conn_readcb w' bev)) ^^ n) (Some w)
           = Some (w\<lparr>stdout := stdout w @ replicate n ''Received\<newline>''\<rparr>)"
proof
  show "evbuffer_remove_buffer (bev_input b) (bev_output b) (evbuffer_get_length (bev_input b))
           = (bev_input b, bev_output b, 0)"
    using assms(2) by (simp add: evbuffer_remove_buffer_def evbuffer_get_length_def int_of_count_0)
next
  show "((\<lambda>r. Option.bind r (\<lambda>w'. conn_readcb w' bev)) ^^ n) (Some w)
           = Some (w\<lparr>stdout := stdout w @ replicate n ''Received\<newline>''\<rparr>)"
  proof (induction n)
    case 0
    show ?case by simp
  next
    case (Suc n)
    have live: "conns (w\<lparr>stdout := stdout w @ replicate n ''Received\<newline>''\<rparr>) bev = Some b"
      using assms(1) by simp
    show ?case
      using Suc conn_readcb_idle_step [OF live assms(2)]
      by (simp add: printf_def replicate_append_same)
  qed
qed

theorem conn_readcb_idle_witness:
  "conns two_clients 6 = Some idle_conn \<and> bev_input idle_conn = [] \<and>
   ((\<lambda>r. Option.bind r (\<lambda>w'. conn_readcb w' 6)) ^^ 3) (Some two_clients)
     = Some (two_clients\<lparr>stdout := [''Received\<newline>'', ''Received\<newline>'', ''Received\<newline>'']\<rparr>)"
  using conn_readcb_idle [of two_clients 6 idle_conn 3]
  by (simp add: two_clients_def event_base_new_def idle_conn_def hello_conn_def numeral_3_eq_3)

subsection \<open>Connection events\<close>

text \<open>
  Claim C3. When \<^verbatim>\<open>conn_eventcb\<close> runs on a live connection that was created with
  \<^verbatim>\<open>BEV_OPT_CLOSE_ON_FREE\<close> (as \<^verbatim>\<open>listener_cb\<close> creates them) and the bitmask has
  at least one of the bits read-error, write-error, end-of-file, unrecoverable-error,
  the callback returns with the connection gone from the store, buffers included, and
  its socket closed. Nothing is registered again: every other connection, the listener,
  the signal event, the pending exit requests and the break flag are as before. At least
  one diagnostic line has been printed.
\<close>

theorem conn_eventcb_terminating:
  assumes "conns w bev = Some b"
      and "bev_options b AND BEV_OPT_CLOSE_ON_FREE \<noteq> 0"
      and "events AND (BEV_EVENT_READING OR BEV_EVENT_WRITING OR BEV_EVENT_EOF OR BEV_EVENT_ERROR) \<noteq> 0"
  shows "\<exists>w'. conn_eventcb w bev events errstr = Some w' \<and>
           conns w' = (conns w)(bev := None) \<and>
           sockets w' = sockets w - {bev_fd b} \<and>
           listener w' = listener w \<and> signal_event w' = signal_event w \<and>
           exit_timers w' = exit_timers w \<and> loop_break w' = loop_break w \<and>
           stderr w' = stderr w \<and> length (stdout w) < length (stdout w')"
proof -
  have "events AND BEV_EVENT_READING \<noteq> 0 \<or> events AND BEV_EVENT_WRITING \<noteq> 0 \<or>
        events AND BEV_EVENT_EOF \<noteq> 0 \<or> events AND BEV_EVENT_ERROR \<noteq> 0"
    using assms(3) by (auto simp add: bit.conj_disj_distrib)
  then show ?thesis
    using conn_eventcb_result [OF assms(1), of events errstr] assms(2) by auto
qed

theorem conn_eventcb_terminating_witness:
  "conns two_clients 5 = Some hello_conn \<and>
   bev_options hello_conn AND BEV_OPT_CLOSE_ON_FREE \<noteq> 0 \<and>
   (BEV_EVENT_READING OR BEV_EVENT_EOF) AND
     (BEV_EVENT_READING OR BEV_EVENT_WRITING OR BEV_EVENT_EOF OR BEV_EVENT_ERROR) \<noteq> 0 \<and>
   (\<exists>w'. conn_eventcb two_clients 5 (BEV_EVENT_READING OR BEV_EVENT_EOF) ''Success'' = Some w' \<and>
         conns w' = [6 \<mapsto> idle_conn] \<and> sockets w' = {6})"
proof -
  have live: "conns two_clients 5 = Some hello_conn"
    by (simp add: two_clients_def)
  have opt: "bev_options hello_conn AND BEV_OPT_CLOSE_ON_FREE \<noteq> 0"
    by (simp add: hello_conn_def BEV_OPT_CLOSE_ON_FREE_def)
  have ev: "(BEV_EVENT_READING OR BEV_EVENT_EOF) AND
     (BEV_EVENT_READING OR BEV_EVENT_WRITING OR BEV_EVENT_EOF OR BEV_EVENT_ERROR) \<noteq> 0"
    by (simp add: BEV_EVENT_READING_def BEV_EVENT_WRITING_def BEV_EVENT_EOF_def BEV_EVENT_ERROR_def)
  have c: "(conns two_clients)(5 := None) = [6 \<mapsto> idle_conn]"
    by (auto simp add: two_clients_def)
  have s: "sockets two_clients - {bev_fd hello_conn} = {6}"
    by (simp add: two_clients_def hello_conn_def)
  show ?thesis
    using conn_eventcb_terminating [OF live opt ev, of "''Success''"] live opt ev c s
    by auto
qed



subsection \<open>Startup and exit status\<close>

text \<open>
  Claim C4. If the event base, the listener or the signal event cannot be made, or
  \<^verbatim>\<open>event_add\<close> fails, \<^verbatim>\<open>main\<close> returns 1 whatever the environment would have
  offered afterwards: no connection exists, nothing was printed on standard output and
  one diagnostic is on standard error. If all of them succeed, \<^verbatim>\<open>main\<close> reaches the
  event loop, and whenever the loop returns \<^verbatim>\<open>main\<close> returns 0.
\<close>

theorem main_exit_status:
  "(\<not> base_ok env \<or> \<not> listener_ok env \<or> \<not> signal_ok env \<or> event_add_rc env < 0 \<longrightarrow>
      (\<exists>w. main env tr = Some (1, w) \<and> conns w = Map.empty \<and> sockets w = {} \<and>
            stdout w = [] \<and> length (stderr w) = 1)) \<and>
   (base_ok env \<and> listener_ok env \<and> signal_ok env \<and> 0 \<le> event_add_rc env \<longrightarrow>
      (\<exists>w. main_startup env = Inr w \<and>
            (\<forall>w'. event_base_dispatch w tr = Some w' \<longrightarrow> (\<exists>wf. main env tr = Some (0, wf)))))"
proof (intro conjI impI)
  assume "\<not> base_ok env \<or> \<not> listener_ok env \<or> \<not> signal_ok env \<or> event_add_rc env < 0"
  from main_startup_failed [OF this]
  show "\<exists>w. main env tr = Some (1, w) \<and> conns w = Map.empty \<and> sockets w = {} \<and>
            stdout w = [] \<and> length (stderr w) = 1"
    by (auto simp add: main_def)
next
  assume "base_ok env \<and> listener_ok env \<and> signal_ok env \<and> 0 \<le> event_add_rc env"
  then have "main_startup env = Inr listening"
    by (simp add: main_startup_ok)
  then show "\<exists>w. main_startup env = Inr w \<and>
            (\<forall>w'. event_base_dispatch w tr = Some w' \<longrightarrow> (\<exists>wf. main env tr = Some (0, wf)))"
    by (auto simp add: main_def)
qed

theorem main_exit_status_witness:
  "\<not> listener_ok (startup_ok\<lparr>listener_ok := False\<rparr>) \<and>
   (\<exists>w. main (startup_ok\<lparr>listener_ok := False\<rparr>) [(10, Accept 5 True), (20, Readable 5 [104])] = Some (1, w) \<and>
        conns w = Map.empty \<and> stdout w = []) \<and>
   base_ok startup_ok \<and> listener_ok startup_ok \<and> signal_ok startup_ok \<and> 0 \<le> event_add_rc startup_ok \<and>
   (\<exists>w'. event_base_dispatch listening [(10, Accept 5 True), (20, Interrupt)] = Some w') \<and>
   (\<exists>wf. main startup_ok [(10, Accept 5 True), (20, Interrupt)] = Some (0, wf))"
proof -
  have bad: "\<not> listener_ok (startup_ok\<lparr>listener_ok := False\<rparr>)"
    by simp
  have good: "base_ok startup_ok \<and> listener_ok startup_ok \<and> signal_ok startup_ok \<and> 0 \<le> event_add_rc startup_ok"
    by (simp add: startup_ok_def)
  have st: "main_startup startup_ok = Inr listening"
    using good by (simp add: main_startup_ok)
  have run: "\<exists>w'. event_base_dispatch listening [(10, Accept 5 True), (20, Interrupt)] = Some w'"
    by (simp add: listening_def event_base_new_def signal_cb_def event_base_loopexit_def printf_def
        listener_cb_success)
  show ?thesis
    using bad good st run
      main_exit_status [of "startup_ok\<lparr>listener_ok := False\<rparr>" "[(10, Accept 5 True), (20, Readable 5 [104])]"]
      main_exit_status [of startup_ok "[(10, Accept 5 True), (20, Interrupt)]"]
    by auto
qed

subsection \<open>Shutdown\<close>



text \<open>
  Claim C10, as the source and the transport have it. Every interrupt that is delivered
  while the signal event is registered, the first like any later one, runs
  \<^verbatim>\<open>signal_cb\<close>, which adds an exit request of its own two seconds after the time of
  that interrupt. The requests made before stay pending: the new request postpones
  none of them, and the loop returns as soon as the time of any earlier request is
  reached. So a second interrupt during the two seconds after the first leaves the time
  of the exit where it was, two seconds after the first: in a run of \<^verbatim>\<open>main\<close> with
  the first interrupt at \<open>t1\<close> and a second one at \<open>t2\<close> less than two seconds later,
  the loop serves every occurrence before \<open>t1\<close> plus two seconds, those after the
  second interrupt (\<open>early\<close>) included, so the exit has not come sooner, and it serves
  no occurrence at or after \<open>t1\<close> plus two seconds (\<open>late\<close>), those before \<open>t2\<close> plus
  two seconds included, so the exit has not come later.
\<close>

theorem every_interrupt_adds_exit_request:
  assumes "base_ok env" and "listener_ok env" and "signal_ok env" and "0 \<le> event_add_rc env"
      and "\<forall>p\<in>set pre. fst p \<le> t1 \<and> snd p \<noteq> Interrupt \<and> \<not> accept_failure (snd p)"
      and "\<forall>p\<in>set mid. t1 \<le> fst p \<and> fst p < t1 + 2000000 \<and> \<not> accept_failure (snd p)"
      and "t1 \<le> t2" and "t2 < t1 + 2000000"
      and "\<forall>p\<in>set early. t2 \<le> fst p \<and> fst p < t1 + 2000000 \<and> \<not> accept_failure (snd p)"
      and "\<forall>p\<in>set late. t1 + 2000000 \<le> fst p"
  shows "(signal_event w \<noteq> None \<longrightarrow>
           (\<exists>w2. dispatch (w\<lparr>now := t\<rparr>) Interrupt = Some w2 \<and>
              exit_timers w2 = exit_timers w @ [t + 2000000] \<and>
              (\<forall>d\<in>set (exit_timers w). \<forall>t3 occ rest. d \<le> t3 \<longrightarrow>
                 event_base_dispatch w2 ((t3, occ) # rest) = Some w2))) \<and>
         (\<exists>w0 w'. main_startup env = Inr w0 \<and>
            serve w0 (pre @ (t1, Interrupt) # mid @ (t2, Interrupt) # early) = Some w' \<and>
            exit_timers w' =
              (t1 + 2000000) # map (\<lambda>p. fst p + 2000000) (filter (\<lambda>p. snd p = Interrupt) mid)
              @ (t2 + 2000000) # map (\<lambda>p. fst p + 2000000) (filter (\<lambda>p. snd p = Interrupt) early) \<and>
            main env (pre @ (t1, Interrupt) # mid @ (t2, Interrupt) # early @ late) =
              Some (0, printf ''done\<newline>'' (event_base_free (event_free (evconnlistener_free w')))))"
proof (intro conjI impI)
  assume sig: "signal_event w \<noteq> None"
  from dispatch_at [where w = w and t = t and occ = Interrupt] sig
  obtain w2 where w2: "dispatch (w\<lparr>now := t\<rparr>) Interrupt = Some w2"
    and x: "exit_timers w2 = exit_timers w @ [t + 2000000]"
    by auto
  have "\<forall>d\<in>set (exit_timers w). \<forall>t3 occ rest. d \<le> t3 \<longrightarrow>
              event_base_dispatch w2 ((t3, occ) # rest) = Some w2"
    using x by (auto simp add: list_ex_iff)
  with w2 x show "\<exists>w2. dispatch (w\<lparr>now := t\<rparr>) Interrupt = Some w2 \<and>
              exit_timers w2 = exit_timers w @ [t + 2000000] \<and>
              (\<forall>d\<in>set (exit_timers w). \<forall>t3 occ rest. d \<le> t3 \<longrightarrow>
                 event_base_dispatch w2 ((t3, occ) # rest) = Some w2)"
    by blast
next
  let ?after = "mid @ (t2, Interrupt) # early"
  have start: "main_startup env = Inr listening"
    using assms(1-4) by (rule main_startup_ok)
  have after: "\<forall>p\<in>set ?after. t1 \<le> fst p \<and> fst p < t1 + 2000000 \<and> \<not> accept_failure (snd p)"
    using assms(6-9) by auto
  from loop_exits_at_first_deadline
         [OF listening_control(3) listening_control(4) listening_control(2) assms(5) after assms(10)]
  obtain w' where served: "serve listening (pre @ (t1, Interrupt) # ?after) = Some w'"
    and timers: "exit_timers w' =
             (t1 + 2000000) # map (\<lambda>p. fst p + 2000000) (filter (\<lambda>p. snd p = Interrupt) ?after)"
    and loop: "event_base_dispatch listening (pre @ (t1, Interrupt) # ?after @ late) = Some w'"
    by blast
  have "main env (pre @ (t1, Interrupt) # mid @ (t2, Interrupt) # early @ late) =
              Some (0, printf ''done\<newline>'' (event_base_free (event_free (evconnlistener_free w'))))"
    using start loop by (simp add: main_def)
  moreover have "exit_timers w' =
              (t1 + 2000000) # map (\<lambda>p. fst p + 2000000) (filter (\<lambda>p. snd p = Interrupt) mid)
              @ (t2 + 2000000) # map (\<lambda>p. fst p + 2000000) (filter (\<lambda>p. snd p = Interrupt) early)"
    using timers by simp
  ultimately show "\<exists>w0 w'. main_startup env = Inr w0 \<and>
            serve w0 (pre @ (t1, Interrupt) # mid @ (t2, Interrupt) # early) = Some w' \<and>
            exit_timers w' =
              (t1 + 2000000) # map (\<lambda>p. fst p + 2000000) (filter (\<lambda>p. snd p = Interrupt) mid)
              @ (t2 + 2000000) # map (\<lambda>p. fst p + 2000000) (filter (\<lambda>p. snd p = Interrupt) early) \<and>
            main env (pre @ (t1, Interrupt) # mid @ (t2, Interrupt) # early @ late) =
              Some (0, printf ''done\<newline>'' (event_base_free (event_free (evconnlistener_free w'))))"
    using start served by auto
qed

text \<open>
  Interrupts at 0 and at 1 second: the clients that connect at 0.5 and at 1.5 seconds are
  accepted, the one that connects at 2.5 seconds is not.
\<close>

theorem every_interrupt_adds_exit_request_witness:
  "signal_event interrupted_once \<noteq> None \<and> exit_timers interrupted_once = [2000000] \<and>
   (\<exists>w2. dispatch (interrupted_once\<lparr>now := 1000000\<rparr>) Interrupt = Some w2 \<and>
         exit_timers w2 = [2000000, 3000000] \<and>
         event_base_dispatch w2 [(2500000, Accept 7 True)] = Some w2) \<and>
   (\<exists>w. main startup_ok
          [(0, Interrupt), (500000, Accept 5 True), (1000000, Interrupt), (1500000, Accept 6 True),
           (2500000, Accept 7 True)] = Some (0, w) \<and>
        conns w 5 \<noteq> None \<and> conns w 6 \<noteq> None \<and> conns w 7 = None)"
proof -
  have ok: "base_ok startup_ok" "listener_ok startup_ok" "signal_ok startup_ok"
    "0 \<le> event_add_rc startup_ok"
    by (simp_all add: startup_ok_def)
  have pre: "\<forall>p\<in>set ([]::(nat \<times> occurrence) list).
               fst p \<le> 0 \<and> snd p \<noteq> Interrupt \<and> \<not> accept_failure (snd p)"
    by simp
  have mid: "\<forall>p\<in>set [(500000::nat, Accept 5 True)].
               0 \<le> fst p \<and> fst p < 0 + 2000000 \<and> \<not> accept_failure (snd p)"
    by simp
  have t2: "(0::nat) \<le> 1000000" "(1000000::nat) < 0 + 2000000"
    by simp_all
  have early: "\<forall>p\<in>set [(1500000::nat, Accept 6 True)].
               1000000 \<le> fst p \<and> fst p < 0 + 2000000 \<and> \<not> accept_failure (snd p)"
    by simp
  have late: "\<forall>p\<in>set [(2500000::nat, Accept 7 True)]. 0 + 2000000 \<le> fst p"
    by simp
  have s: "signal_event interrupted_once \<noteq> None"
    by (simp add: interrupted_once_def signal_cb_def event_base_loopexit_def printf_def listening_def)
  have x: "exit_timers interrupted_once = [2000000]"
    by (simp add: interrupted_once_def signal_cb_def event_base_loopexit_def printf_def listening_def
        event_base_new_def usec_of_timeval_def)
  have start: "main_startup startup_ok = Inr listening"
    using ok by (rule main_startup_ok)
  have served: "\<exists>w'. serve listening
          [(0, Interrupt), (500000, Accept 5 True), (1000000, Interrupt), (1500000, Accept 6 True)]
          = Some w' \<and> conns w' 5 \<noteq> None \<and> conns w' 6 \<noteq> None \<and> conns w' 7 = None"
    by (simp add: listening_def event_base_new_def listener_cb_success
        signal_cb_def event_base_loopexit_def printf_def)
  from every_interrupt_adds_exit_request [OF ok pre mid t2 early late, of interrupted_once 1000000]
  show ?thesis
    using s x start served
    by (auto simp add: printf_def event_base_free_def event_free_def evconnlistener_free_def)
qed

text \<open>
  The claim as it was stated fails. Interrupts arrive at 0 and at 1 second, and a client
  connects at 2.5 seconds. Were the exit moved to two seconds after the second
  interrupt, the loop would still run at 2.5 seconds and accept the client, as it does
  when the interrupt at 1 second is the only one (second run below: the connection on
  socket 7 exists). With both interrupts the loop has returned at 2 seconds: the
  process ends with no connection and no open socket, its clock still at the time of
  the second interrupt.
\<close>

theorem second_interrupt_counterexample:
  "main startup_ok [(0, Interrupt), (1000000, Interrupt), (2500000, Accept 7 True)] =
     Some (0, event_base_new
               \<lparr>now := 1000000,
                stdout := [''Start listening the port: 9995\<newline>'',
                           ''Caught an interrupt signal; exiting cleanly in two seconds.\<newline>'',
                           ''Caught an interrupt signal; exiting cleanly in two seconds.\<newline>'',
                           ''done\<newline>'']\<rparr>) \<and>
   main startup_ok [(1000000, Interrupt), (2500000, Accept 7 True)] =
     Some (0, event_base_new
               \<lparr>conns := [7 \<mapsto> \<lparr>bev_fd = 7, bev_options = BEV_OPT_CLOSE_ON_FREE, bev_input = [],
                                  bev_output = [], readcb = Some Conn_readcb,
                                  writecb = Some Conn_writecb, eventcb = Some Conn_eventcb,
                                  enabled = EV_WRITE OR EV_READ, wire = []\<rparr>],
                sockets := {7},
                now := 2500000,
                stdout := [''Start listening the port: 9995\<newline>'',
                           ''Caught an interrupt signal; exiting cleanly in two seconds.\<newline>'',
                           ''done\<newline>'']\<rparr>)"
  by (simp add: main_def main_startup_ok startup_ok_def listening_def event_base_new_def
      signal_cb_def event_base_loopexit_def printf_def usec_of_timeval_def listener_cb_success
      event_base_free_def event_free_def evconnlistener_free_def)

subsection \<open>The listener\<close>

text \<open>
  Claim C6. When \<^verbatim>\<open>bufferevent_socket_new\<close> fails in \<^verbatim>\<open>listener_cb\<close>, the callback
  writes a diagnostic to standard error and sets the break flag of the loop; it makes no
  connection. In a run of \<^verbatim>\<open>main\<close> after a successful startup, with no interrupt
  and no such failure before, the loop returns right after that callback: whatever the
  environment offers afterwards (\<open>rest\<close>) is not served, and \<^verbatim>\<open>main\<close> frees its
  resources and returns. The handler of per-connection conditions, \<^verbatim>\<open>conn_eventcb\<close>,
  in contrast leaves the break flag as it is.
\<close>

theorem accept_failure_stops_server:
  assumes "base_ok env" and "listener_ok env" and "signal_ok env" and "0 \<le> event_add_rc env"
      and "\<forall>p\<in>set pre. snd p \<noteq> Interrupt \<and> \<not> accept_failure (snd p)"
  shows "listener_cb w fd False =
           w\<lparr>loop_break := True, stderr := stderr w @ [''Error constructing bufferevent!'']\<rparr> \<and>
         (\<exists>w0 w1. main_startup env = Inr w0 \<and> serve w0 pre = Some w1 \<and>
            main env (pre @ (t, Accept fd False) # rest) =
              Some (0, printf ''done\<newline>''
                         (event_base_free (event_free (evconnlistener_free
                            (listener_cb (w1\<lparr>now := t, sockets := insert fd (sockets w1)\<rparr>) fd False)))))) \<and>
         (conns w bev = Some b \<longrightarrow>
            (\<exists>w2. conn_eventcb w bev events errstr = Some w2 \<and> loop_break w2 = loop_break w))"
proof (intro conjI impI)
  show "listener_cb w fd False =
           w\<lparr>loop_break := True, stderr := stderr w @ [''Error constructing bufferevent!'']\<rparr>"
    by (rule listener_cb_failure)
next
  have start: "main_startup env = Inr listening"
    using assms(1-4) by (rule main_startup_ok)
  from dispatch_loop_serves_idle [OF listening_control(3,4) assms(5), of "(t, Accept fd False) # rest"]
  obtain w1 where served: "serve listening pre = Some w1"
    and loop: "event_base_dispatch listening (pre @ (t, Accept fd False) # rest) =
               event_base_dispatch w1 ((t, Accept fd False) # rest)"
    by blast
  have no_fail: "\<not> list_ex (\<lambda>p. accept_failure (snd p)) pre"
    using assms(5) by (simp add: list_ex_iff)
  have no_int: "filter (\<lambda>p. snd p = Interrupt) pre = []"
    using assms(5) by (simp add: filter_empty_conv)
  from serve_effect [of listening pre] served
  have running: "\<not> loop_break w1" "exit_timers w1 = []" "listener w1 \<noteq> None"
    using listening_control no_fail no_int by auto
  let ?w2 = "listener_cb (w1\<lparr>now := t, sockets := insert fd (sockets w1)\<rparr>) fd False"
  have stop: "loop_break ?w2"
    by (simp add: listener_cb_failure)
  have "event_base_dispatch w1 ((t, Accept fd False) # rest) = event_base_dispatch ?w2 rest"
    using running by (auto split: accept_cb.splits)
  also have "\<dots> = Some ?w2"
    using stop by (cases rest) auto
  finally have "event_base_dispatch listening (pre @ (t, Accept fd False) # rest) = Some ?w2"
    using loop by simp
  then show "\<exists>w0 w1. main_startup env = Inr w0 \<and> serve w0 pre = Some w1 \<and>
            main env (pre @ (t, Accept fd False) # rest) =
              Some (0, printf ''done\<newline>''
                         (event_base_free (event_free (evconnlistener_free
                            (listener_cb (w1\<lparr>now := t, sockets := insert fd (sockets w1)\<rparr>) fd False)))))"
    using start served by (auto simp add: main_def)
next
  assume "conns w bev = Some b"
  from conn_eventcb_result [OF this, of events errstr]
  show "\<exists>w2. conn_eventcb w bev events errstr = Some w2 \<and> loop_break w2 = loop_break w"
    by auto
qed

text \<open>
  The client on socket 5 is accepted; the accept of socket 6 fails; the bytes that the
  client on socket 5 sends afterwards are never read.
\<close>

theorem accept_failure_stops_server_witness:
  "\<exists>w. main startup_ok [(10, Accept 5 True), (20, Accept 6 False), (30, Readable 5 [104])] = Some (0, w) \<and>
       loop_break w \<and> stderr w = [''Error constructing bufferevent!''] \<and>
       (\<exists>b. conns w 5 = Some b \<and> bev_input b = [] \<and> bev_output b = []) \<and> conns w 6 = None"
proof -
  have ok: "base_ok startup_ok" "listener_ok startup_ok" "signal_ok startup_ok"
    "0 \<le> event_add_rc startup_ok"
    by (simp_all add: startup_ok_def)
  have pre: "\<forall>p\<in>set [(10::nat, Accept 5 True)]. snd p \<noteq> Interrupt \<and> \<not> accept_failure (snd p)"
    by simp
  have start: "main_startup startup_ok = Inr listening"
    using ok by (rule main_startup_ok)
  have served: "serve listening [(10, Accept 5 True)] =
      Some (listener_cb (listening\<lparr>now := 10, sockets := insert 5 (sockets listening)\<rparr>) 5 True)"
    by (simp add: listening_def)
  from accept_failure_stops_server [OF ok pre, of _ 6 20 "[(30, Readable 5 [104])]"]
  show ?thesis
    using start served
    by (auto simp add: listener_cb_failure listener_cb_success printf_def event_base_free_def
        event_free_def evconnlistener_free_def listening_def event_base_new_def)
qed

text \<open>
  Claim C8, as the source and the transport have it. After a successful startup the
  listener is registered with the accept callback \<^verbatim>\<open>listener_cb\<close> on the address
  family \<^verbatim>\<open>AF_INET\<close>, port 9995 (in network byte order), address \<^verbatim>\<open>INADDR_ANY\<close>,
  that is, all local interfaces; its flags contain \<^verbatim>\<open>LEV_OPT_REUSEABLE\<close>; and the
  backlog argument is \<open>-1\<close>, for which the transport listens with its default accept
  backlog, a queue of 128 pending connections. (That the listening socket is a stream
  socket is \<^verbatim>\<open>evconnlistener_new_bind\<close>'s doing.) For every socket the listener
  accepts and for which a bufferevent can be allocated, the store gains a bufferevent on
  that socket with empty buffers, with \<^verbatim>\<open>conn_readcb\<close>, \<^verbatim>\<open>conn_writecb\<close> and
  \<^verbatim>\<open>conn_eventcb\<close> as its callbacks and with reading and writing enabled; the
  program puts no limit on how many it accepts.
\<close>

theorem listener_setup:
  "(base_ok env \<and> listener_ok env \<and> signal_ok env \<and> 0 \<le> event_add_rc env \<longrightarrow>
      (\<exists>w l. main_startup env = Inr w \<and> listener w = Some l \<and> lev_cb l = Listener_cb \<and>
             sin_family (lev_addr l) = AF_INET \<and> ntohs (sin_port (lev_addr l)) = 9995 \<and>
             sin_addr (lev_addr l) = INADDR_ANY \<and>
             lev_flags l AND LEV_OPT_REUSEABLE \<noteq> 0 \<and>
             lev_backlog l = - 1 \<and> listen_backlog (lev_backlog l) = Some 128)) \<and>
   (listener w \<noteq> None \<longrightarrow>
      (\<exists>w'. dispatch w (Accept fd True) = Some w' \<and>
            conns w' = (conns w)(fd \<mapsto>
              \<lparr>bev_fd = fd, bev_options = BEV_OPT_CLOSE_ON_FREE, bev_input = [], bev_output = [],
               readcb = Some Conn_readcb, writecb = Some Conn_writecb, eventcb = Some Conn_eventcb,
               enabled = EV_WRITE OR EV_READ, wire = []\<rparr>)))"
proof (intro conjI impI)
  assume "base_ok env \<and> listener_ok env \<and> signal_ok env \<and> 0 \<le> event_add_rc env"
  then have "main_startup env = Inr listening"
    by (simp add: main_startup_ok)
  moreover have "\<exists>l. listener listening = Some l \<and> lev_cb l = Listener_cb \<and>
             sin_family (lev_addr l) = AF_INET \<and> ntohs (sin_port (lev_addr l)) = 9995 \<and>
             sin_addr (lev_addr l) = INADDR_ANY \<and>
             lev_flags l AND LEV_OPT_REUSEABLE \<noteq> 0 \<and>
             lev_backlog l = - 1 \<and> listen_backlog (lev_backlog l) = Some 128"
    by (simp add: listening_def ntohs_htons_PORT INADDR_ANY_def LEV_OPT_REUSEABLE_def
        LEV_OPT_CLOSE_ON_FREE_def listen_backlog_def)
  ultimately show "\<exists>w l. main_startup env = Inr w \<and> listener w = Some l \<and> lev_cb l = Listener_cb \<and>
             sin_family (lev_addr l) = AF_INET \<and> ntohs (sin_port (lev_addr l)) = 9995 \<and>
             sin_addr (lev_addr l) = INADDR_ANY \<and>
             lev_flags l AND LEV_OPT_REUSEABLE \<noteq> 0 \<and>
             lev_backlog l = - 1 \<and> listen_backlog (lev_backlog l) = Some 128"
    by blast
next
  assume "listener w \<noteq> None"
  then show "\<exists>w'. dispatch w (Accept fd True) = Some w' \<and>
            conns w' = (conns w)(fd \<mapsto>
              \<lparr>bev_fd = fd, bev_options = BEV_OPT_CLOSE_ON_FREE, bev_input = [], bev_output = [],
               readcb = Some Conn_readcb, writecb = Some Conn_writecb, eventcb = Some Conn_eventcb,
               enabled = EV_WRITE OR EV_READ, wire = []\<rparr>)"
    by (auto simp add: listener_cb_success split: accept_cb.splits)
qed

theorem listener_setup_witness:
  "base_ok startup_ok \<and> listener_ok startup_ok \<and> signal_ok startup_ok \<and> 0 \<le> event_add_rc startup_ok \<and>
   listener listening \<noteq> None \<and>
   (\<exists>l. main_startup startup_ok = Inr listening \<and> listener listening = Some l \<and>
        ntohs (sin_port (lev_addr l)) = 9995 \<and> lev_backlog l = - 1 \<and>
        listen_backlog (lev_backlog l) = Some 128) \<and>
   (\<exists>w' b. dispatch listening (Accept 5 True) = Some w' \<and> conns w' 5 = Some b \<and>
        readcb b = Some Conn_readcb \<and> writecb b = Some Conn_writecb \<and> eventcb b = Some Conn_eventcb)"
proof -
  have ok: "base_ok startup_ok \<and> listener_ok startup_ok \<and> signal_ok startup_ok \<and> 0 \<le> event_add_rc startup_ok"
    by (simp add: startup_ok_def)
  have st: "main_startup startup_ok = Inr listening"
    using ok by (simp add: main_startup_ok)
  have l: "listener listening \<noteq> None"
    by (rule listening_control)
  show ?thesis
    using ok st l listener_setup [of startup_ok listening 5] by auto
qed

text \<open>
  The claim as it was stated, an unbounded accept backlog, fails: the listener that
  \<^verbatim>\<open>main\<close> creates has the backlog argument \<open>-1\<close>, and the queue length given to
  \<^verbatim>\<open>listen\<close> for it is the finite 128.
\<close>

theorem backlog_counterexample:
  "main_startup startup_ok = Inr listening \<and>
   map_option lev_backlog (listener listening) = Some (- 1) \<and>
   map_option (listen_backlog \<circ> lev_backlog) (listener listening) = Some (Some 128)"
  by (simp add: main_startup_ok startup_ok_def listening_def event_base_new_def listen_backlog_def)


end
